theory Spec2Isabelle
  imports Main "HOL-Library.Char_ord" "HOL-Library.List_Lexorder"
begin

section \<open>Values exchanged with the outside world\<close>

text \<open>
  A decoded JSON document, as \<^verbatim>\<open>response.json()\<close> hands it to the program: a Python
  \<^verbatim>\<open>dict\<close> is the list of its items in insertion order (the keys of a decoded dict are
  pairwise distinct), a Python \<^verbatim>\<open>list\<close> is a list. JSON numbers are modelled as
  integers; floating point numbers are outside the model.
\<close>

datatype json =
    JNull
  | JBool bool
  | JInt int
  | JStr string
  | JList "json list"
  | JObj "(string \<times> json) list"

text \<open>What \<^verbatim>\<open>requests.get\<close> returns: the status code, the body text, and the decoded body
  (\<open>None\<close> when the body is not JSON).\<close>

record response =
  status_code :: int
  text_body :: string
  json_body :: "json option"

text \<open>The exceptions the program and the library calls it makes can raise.\<close>

datatype error =
    RequestException string response
  | ConnectionError
  | JSONDecodeError
  | ValueError string
  | TypeError
  | OverflowError
  | KeyError string
  | MergeError
  | NotRecords
  | DuplicateColumns
  | AssertionError string
  | StopIteration
  | FileNotFoundError
  | FileExistsError
  | NotADirectoryError
  | DirectoryNotEmpty
  | IsADirectoryError
  | OSError
  | RecursionError

section \<open>Tables\<close>

text \<open>
  A \<^verbatim>\<open>pandas.DataFrame\<close> with string column labels: the labels in order, and the rows,
  each row giving the value of every column in that order. A missing value (\<^verbatim>\<open>NaN\<close>,
  \<^verbatim>\<open>None\<close>) is \<open>JNull\<close>.
\<close>

type_synonym row = "(string \<times> json) list"

record frame =
  columns :: "string list"
  rows :: "row list"

definition cell :: "row \<Rightarrow> string \<Rightarrow> json" where
  "cell r c = (case map_of r c of None \<Rightarrow> JNull | Some v \<Rightarrow> v)"

fun add_keys :: "string list \<Rightarrow> string list \<Rightarrow> string list" where
  "add_keys cols [] = cols"
| "add_keys cols (k # ks) = add_keys (if k \<in> set cols then cols else cols @ [k]) ks"

definition field_names :: "row list \<Rightarrow> string list" where
  \<comment> \<open>the keys of the records, each once, in the order they are first met\<close>
  "field_names records = foldl add_keys [] (map (map fst) records)"

definition from_records :: "row list \<Rightarrow> frame" where
  \<comment> \<open>one row per record; a record without a field has a missing value there\<close>
  "from_records records =
     \<lparr>columns = field_names records,
      rows = map (\<lambda>r. map (\<lambda>c. (c, cell r c)) (field_names records)) records\<rparr>"

fun as_record :: "json \<Rightarrow> row option" where
  "as_record (JObj items) = Some items"
| "as_record _ = None"

fun as_records :: "json list \<Rightarrow> row list option" where
  "as_records [] = Some []"
| "as_records (v # vs) =
     (case as_record v of
        None \<Rightarrow> None
      | Some r \<Rightarrow> (case as_records vs of None \<Rightarrow> None | Some rs \<Rightarrow> Some (r # rs)))"

text \<open>
  The constructor \<^verbatim>\<open>pd.DataFrame(data)\<close>, for the data the program passes to it: a list of
  records gives one row per record, \<^verbatim>\<open>None\<close> gives the empty table, a bare number, string
  or boolean is rejected. For a list with an element that is not a record, pandas builds
  a table whose column labels are integers; such a table has none of the columns the
  program goes on to select, and the model stops there with \<open>NotRecords\<close>.
\<close>

fun DataFrame :: "json \<Rightarrow> error + frame" where
  "DataFrame JNull = Inr \<lparr>columns = [], rows = []\<rparr>"
| "DataFrame (JList vs) =
     (case as_records vs of None \<Rightarrow> Inl NotRecords | Some rs \<Rightarrow> Inr (from_records rs))"
| "DataFrame (JObj items) = Inl NotRecords"
| "DataFrame _ = Inl (ValueError ''DataFrame constructor not properly called!'')"

section \<open>The API client: \<^verbatim>\<open>CFBDClient\<close>\<close>

fun isinstance_list :: "json \<Rightarrow> bool" where
  "isinstance_list (JList vs) = True"
| "isinstance_list _ = False"

definition tabular_data :: "json \<Rightarrow> json" where
  \<comment> \<open>the value \<^verbatim>\<open>response\<close> is bound to when \<^verbatim>\<open>response_as_df\<close> reaches its last line\<close>
  "tabular_data response =
     (case response of
        JObj items \<Rightarrow>
          if list_all isinstance_list (map snd items) \<and> length items = 1
          then hd (map snd items)
          else JList [response]
      | _ \<Rightarrow> response)"

definition response_as_df :: "json \<Rightarrow> error + frame" where
  "response_as_df response = DataFrame (tabular_data response)"

text \<open>
  A header dictionary is a finite map; dictionaries the caller owns live in a store, and
  a reference to one is its address there, so that an update in place is seen by every
  holder of the reference.
\<close>

type_synonym headers = "string \<rightharpoonup> string"
type_synonym store = "nat \<Rightarrow> headers"

record client =
  hostname :: string
  client_headers :: headers

definition CFBDClient :: "string \<Rightarrow> string \<Rightarrow> client" where
  \<comment> \<open>\<^verbatim>\<open>__init__\<close>\<close>
  "CFBDClient host bearer_token =
     \<lparr>hostname = host,
      client_headers = Map.empty(''Authorization'' \<mapsto> ''Bearer '' @ bearer_token)\<rparr>"

record request =
  url :: string
  sent_headers :: headers
  query :: "(string \<times> json) list option"

text \<open>The network: \<^verbatim>\<open>requests.get\<close> either raises or returns a response.\<close>

type_synonym transport = "request \<Rightarrow> error + response"

definition ok :: "response \<Rightarrow> bool" where
  \<comment> \<open>\<^verbatim>\<open>Response.ok\<close>: no client or server error status\<close>
  "ok r = (\<not> (400 \<le> status_code r \<and> status_code r < 600))"

fun str_nat :: "nat \<Rightarrow> string" where
  "str_nat n = (if n < 10 then [''0123456789'' ! n] else str_nat (n div 10) @ [''0123456789'' ! (n mod 10)])"

declare str_nat.simps [simp del]

definition str_int :: "int \<Rightarrow> string" where
  \<comment> \<open>how an f-string prints an integer\<close>
  "str_int i = (if i < 0 then ''-'' @ str_nat (nat (- i)) else str_nat (nat i))"

datatype payload = Raw json | Table frame

text \<open>
  \<^verbatim>\<open>CFBDClient.get\<close>. \<open>headers\<close> is \<open>None\<close> or the address of the caller's dictionary.
  The result is the store after the call, the requests sent, and the value returned or
  the exception raised.
\<close>

definition get ::
  "client \<Rightarrow> transport \<Rightarrow> store \<Rightarrow> string \<Rightarrow> nat option \<Rightarrow> (string \<times> json) list option \<Rightarrow> bool
     \<Rightarrow> store \<times> request list \<times> (error + payload)"
where
  "get self http heap subpath headers params as_df =
     (let updated = (case headers of None \<Rightarrow> Map.empty | Some a \<Rightarrow> heap a) ++ client_headers self;
          heap' = (case headers of None \<Rightarrow> heap | Some a \<Rightarrow> heap(a := updated));
          req = \<lparr>url = hostname self @ ''/'' @ subpath, sent_headers = updated, query = params\<rparr>
      in (heap', [req],
          case http req of
            Inl e \<Rightarrow> Inl e
          | Inr response \<Rightarrow>
              if \<not> ok response
              then Inl (RequestException
                         (str_int (status_code response) @ '': '' @ text_body response) response)
              else (case json_body response of
                      None \<Rightarrow> Inl JSONDecodeError
                    | Some json_data \<Rightarrow>
                        if \<not> as_df then Inr (Raw json_data)
                        else (case response_as_df json_data of
                                Inl e \<Rightarrow> Inl e
                              | Inr df \<Rightarrow> Inr (Table df)))))"

section \<open>Consolidation of the weekly files: \<^verbatim>\<open>merge_csvs\<close>\<close>

text \<open>
  A CSV file is the list of rows \<^verbatim>\<open>csv.reader\<close> yields for it, each row a list of fields;
  a file without any line yields no row. A directory is the list of its files, name and
  rows, in the order the operating system lists them.
\<close>

type_synonym csv_row = "string list"
type_synonym csv_file = "string \<times> csv_row list"

definition is_csv_name :: "string \<Rightarrow> bool" where
  \<comment> \<open>the pattern \<^verbatim>\<open>*.csv\<close> of \<^verbatim>\<open>data_folder.glob\<close>\<close>
  "is_csv_name name = (length name \<ge> 4 \<and> drop (length name - 4) name = ''.csv'')"

definition glob_csv :: "csv_file list \<Rightarrow> csv_file list" where
  "glob_csv entries = filter (\<lambda>f. is_csv_name (fst f)) entries"

definition sorted_csv_files :: "csv_file list \<Rightarrow> csv_file list" where
  \<comment> \<open>\<^verbatim>\<open>sorted(data_folder.glob('*.csv'))\<close>: the paths share their directory, so they are
      ordered by file name, character by character\<close>
  "sorted_csv_files entries = sort_key fst (glob_csv entries)"

text \<open>
  The loop over \<^verbatim>\<open>enumerate(csv_files)\<close>: \<open>i\<close> is the index, \<open>header\<close> the canonical
  header (\<open>None\<close> before the first file), \<open>merged_rows\<close> the rows collected so far.
  \<^verbatim>\<open>next(reader)\<close> raises \<^verbatim>\<open>StopIteration\<close> on a file without rows.
\<close>

fun merge_loop ::
  "nat \<Rightarrow> csv_row option \<Rightarrow> csv_row list \<Rightarrow> csv_file list \<Rightarrow> error + (csv_row option \<times> csv_row list)"
where
  "merge_loop i header merged_rows [] = Inr (header, merged_rows)"
| "merge_loop i header merged_rows ((name, lines) # files) =
     (case lines of
        [] \<Rightarrow> Inl StopIteration
      | file_header # reader \<Rightarrow>
          if i = 0 then merge_loop (Suc i) (Some file_header) (merged_rows @ reader) files
          else if Some file_header \<noteq> header then Inl (ValueError (''Header mismatch in '' @ name))
          else merge_loop (Suc i) header (merged_rows @ reader) files)"

text \<open>
  \<^verbatim>\<open>merge_csvs\<close> itself. \<open>out\<close> is the content of the file at \<^verbatim>\<open>export_path\<close> before the
  call (\<open>None\<close>: no such file); the result is the exception raised, if any, and the content
  of that file after the call.
\<close>

definition merge_csvs ::
  "string \<Rightarrow> csv_file list \<Rightarrow> csv_row list option \<Rightarrow> error option \<times> csv_row list option"
where
  "merge_csvs data_folder entries out =
     (let csv_files = sorted_csv_files entries in
      if csv_files = [] then (Some (ValueError (''No CSV files found in '' @ data_folder)), out)
      else case merge_loop 0 None [] csv_files of
             Inl e \<Rightarrow> (Some e, out)
           | Inr (None, merged_rows) \<Rightarrow> (Some TypeError, out)
           | Inr (Some header, merged_rows) \<Rightarrow> (None, Some (header # merged_rows)))"

text \<open>The two failure conditions the specification names.\<close>

definition no_csv_files :: "csv_file list \<Rightarrow> bool" where
  "no_csv_files entries = (sorted_csv_files entries = [])"

definition header_differs :: "csv_file list \<Rightarrow> bool" where
  \<comment> \<open>some file after the first has a header that differs from the first file's header\<close>
  "header_differs entries =
     (case sorted_csv_files entries of
        [] \<Rightarrow> False
      | first # later \<Rightarrow>
          (\<exists>f \<in> set later. \<exists>h r h' r'. snd first = h # r \<and> snd f = h' # r' \<and> h' \<noteq> h))"

definition headerless_file :: "csv_file list \<Rightarrow> bool" where
  \<comment> \<open>some matching file has no row at all, hence no header\<close>
  "headerless_file entries = (\<exists>f \<in> set (sorted_csv_files entries). snd f = [])"

section \<open>The directory utilities and the file system\<close>

text \<open>
  A path is the list of its components below the working directory; the empty path is
  the working directory itself, which always exists. The file system is the list of the
  entries present, in the order a directory listing returns them. A symbolic link is a
  leaf: it points to a regular file or nowhere (links to directories are outside the
  model).
\<close>

type_synonym path = "string list"

datatype entry = File | Dir | LinkToFile | DanglingLink

type_synonym filesystem = "(path \<times> entry) list"

definition node :: "filesystem \<Rightarrow> path \<Rightarrow> entry option" where
  "node fs p = (if p = [] then Some Dir else map_of fs p)"

definition exists_path :: "filesystem \<Rightarrow> path \<Rightarrow> bool" where
  \<comment> \<open>\<^verbatim>\<open>Path.exists\<close> follows links: a dangling link does not exist\<close>
  "exists_path fs p = (node fs p \<in> {Some File, Some Dir, Some LinkToFile})"

definition is_dir :: "filesystem \<Rightarrow> path \<Rightarrow> bool" where
  "is_dir fs p = (node fs p = Some Dir)"

definition is_file :: "filesystem \<Rightarrow> path \<Rightarrow> bool" where
  "is_file fs p = (node fs p \<in> {Some File, Some LinkToFile})"

definition is_symlink :: "filesystem \<Rightarrow> path \<Rightarrow> bool" where
  "is_symlink fs p = (node fs p \<in> {Some LinkToFile, Some DanglingLink})"

definition children :: "filesystem \<Rightarrow> path \<Rightarrow> path list" where
  "children fs p = filter (\<lambda>q. q \<noteq> [] \<and> butlast q = p) (map fst fs)"

definition remove_entry :: "filesystem \<Rightarrow> path \<Rightarrow> filesystem" where
  "remove_entry fs p = filter (\<lambda>e. fst e \<noteq> p) fs"


definition unlink :: "filesystem \<Rightarrow> path \<Rightarrow> error option \<times> filesystem" where
  "unlink fs p =
     (if p = [] then (Some IsADirectoryError, fs)
      else case node fs p of
             None \<Rightarrow> (Some FileNotFoundError, fs)
           | Some Dir \<Rightarrow> (Some IsADirectoryError, fs)
           | Some e \<Rightarrow> (None, remove_entry fs p))"

definition rmdir :: "filesystem \<Rightarrow> path \<Rightarrow> error option \<times> filesystem" where
  "rmdir fs p =
     (if p = [] then (Some OSError, fs)
      else case node fs p of
             None \<Rightarrow> (Some FileNotFoundError, fs)
           | Some Dir \<Rightarrow>
               if children fs p \<noteq> [] then (Some DirectoryNotEmpty, fs)
               else (None, remove_entry fs p)
           | Some e \<Rightarrow> (Some NotADirectoryError, fs))"






text \<open>
  \<^verbatim>\<open>folder.rglob('*')\<close> yields every path below the folder, the entries of the folder
  itself first, then those of its subdirectories.
\<close>

definition rglob :: "filesystem \<Rightarrow> path \<Rightarrow> path list" where
  "rglob fs p =
     children fs p
     @ filter (\<lambda>q. length p + 1 < length q \<and> take (length p) q = p) (map fst fs)"

text \<open>
  \<^verbatim>\<open>purge_folder\<close> and the body of its loop. The first argument bounds the depth of the
  recursion, as the interpreter's recursion limit does; the result is the exception
  raised, if any, and the file system as the call leaves it.
\<close>

fun purge_folder :: "nat \<Rightarrow> filesystem \<Rightarrow> path \<Rightarrow> error option \<times> filesystem"
  and purge_paths :: "nat \<Rightarrow> filesystem \<Rightarrow> path list \<Rightarrow> error option \<times> filesystem"
where
  "purge_folder 0 fs folder = (Some RecursionError, fs)"
| "purge_folder (Suc depth) fs folder =
     (if \<not> exists_path fs folder then (None, fs)
      else case purge_paths depth fs (rglob fs folder) of
             (Some e, fs') \<Rightarrow> (Some e, fs')
           | (None, fs') \<Rightarrow> rmdir fs' folder)"
| "purge_paths depth fs [] = (None, fs)"
| "purge_paths depth fs (path # rest) =
     (if is_file fs path \<or> is_symlink fs path then
        (case unlink fs path of
           (Some e, fs') \<Rightarrow> (Some e, fs')
         | (None, fs') \<Rightarrow> purge_paths depth fs' rest)
      else if is_dir fs path then
        (case purge_folder depth fs path of
           (Some e, fs') \<Rightarrow> (Some e, fs')
         | (None, fs') \<Rightarrow>
             (case rmdir fs' path of
                (Some e, fs'') \<Rightarrow> (Some e, fs'')
              | (None, fs'') \<Rightarrow> purge_paths depth fs'' rest))
      else purge_paths depth fs rest)"

section \<open>The weekly fetch-and-merge routine: \<^verbatim>\<open>get_field_goal_data\<close>\<close>

datatype StatTypes =
    INCOMPLETION | TARGET | PASS_BREAKUP | COMPLETION | RECEPTION | TACKLE | RUSH | FUMBLE
  | FUMBLE_FORCED | FUMBLE_RECOVERED | SACK_TAKEN | SACK | KICKOFF | ONSIDE_KICK
  | KICKOFF_RETURN | PUNT | PUNT_BLOCK | FG_ATTEMPT_BLOCKED | FIELD_GOAL_BLOCK
  | INTERCEPTION_THROWN | INTERCEPTION | TOUCHDOWN | FIELD_GOAL_ATTEMPT | FIELD_GOAL_MADE
  | FIELD_GOAL_MISSED

fun stat_value :: "StatTypes \<Rightarrow> int" where
  "stat_value INCOMPLETION = 1"
| "stat_value TARGET = 2"
| "stat_value PASS_BREAKUP = 3"
| "stat_value COMPLETION = 4"
| "stat_value RECEPTION = 5"
| "stat_value TACKLE = 6"
| "stat_value RUSH = 7"
| "stat_value FUMBLE = 8"
| "stat_value FUMBLE_FORCED = 9"
| "stat_value FUMBLE_RECOVERED = 10"
| "stat_value SACK_TAKEN = 11"
| "stat_value SACK = 12"
| "stat_value KICKOFF = 13"
| "stat_value ONSIDE_KICK = 14"
| "stat_value KICKOFF_RETURN = 15"
| "stat_value PUNT = 16"
| "stat_value PUNT_BLOCK = 17"
| "stat_value FG_ATTEMPT_BLOCKED = 18"
| "stat_value FIELD_GOAL_BLOCK = 19"
| "stat_value INTERCEPTION_THROWN = 20"
| "stat_value INTERCEPTION = 21"
| "stat_value TOUCHDOWN = 22"
| "stat_value FIELD_GOAL_ATTEMPT = 23"
| "stat_value FIELD_GOAL_MADE = 24"
| "stat_value FIELD_GOAL_MISSED = 25"

subsection \<open>The table operations the routine uses\<close>

text \<open>Running a step on the result of the step before, unless that one raised.\<close>

definition and_then :: "error + 'a \<Rightarrow> ('a \<Rightarrow> error + 'b) \<Rightarrow> error + 'b" where
  "and_then r f = (case r of Inl e \<Rightarrow> Inl e | Inr x \<Rightarrow> f x)"

definition select_columns :: "frame \<Rightarrow> string list \<Rightarrow> error + frame" where
  \<comment> \<open>\<^verbatim>\<open>df[[c1, c2, ...]]\<close>\<close>
  "select_columns df cols =
     (case filter (\<lambda>c. c \<notin> set (columns df)) cols of
        c # cs \<Rightarrow> Inl (KeyError c)
      | [] \<Rightarrow> Inr \<lparr>columns = cols, rows = map (\<lambda>r. map (\<lambda>c. (c, cell r c)) cols) (rows df)\<rparr>)"

datatype how = LeftJoin | InnerJoin

definition matching :: "string \<Rightarrow> string \<Rightarrow> row \<Rightarrow> row list \<Rightarrow> row list" where
  \<comment> \<open>the rows of the right table whose key equals the key of the left row \<open>l\<close>\<close>
  "matching left_on right_on l rs = filter (\<lambda>r. cell r right_on = cell l left_on) rs"

definition suffixed :: "string list \<Rightarrow> string \<Rightarrow> string \<Rightarrow> string" where
  "suffixed overlap suffix c = (if c \<in> set overlap then c @ suffix else c)"

text \<open>
  \<^verbatim>\<open>pd.merge(left, right, how, left_on, right_on)\<close> (\<^verbatim>\<open>on=k\<close> is both keys equal to \<open>k\<close>).
  Left rows keep their order, and the matches of one left row keep the order of the right
  table; with \<open>LeftJoin\<close> a left row without a match is kept once, with missing values on
  the right. A key shared by name appears once; any other column name the two tables
  share gets the suffixes \<^verbatim>\<open>_x\<close> and \<^verbatim>\<open>_y\<close>. Keys match when they are equal as JSON values
  (pandas raises when one key column is numeric and the other holds strings; there the
  model returns the table without matches).
\<close>

definition right_columns :: "string \<Rightarrow> string \<Rightarrow> frame \<Rightarrow> string list" where
  "right_columns left_on right_on right =
     (if left_on = right_on then filter (\<lambda>c. c \<noteq> right_on) (columns right) else columns right)"

definition overlapping :: "frame \<Rightarrow> string list \<Rightarrow> string list" where
  "overlapping left right_cols = filter (\<lambda>c. c \<in> set right_cols) (columns left)"

definition left_part :: "string list \<Rightarrow> frame \<Rightarrow> row \<Rightarrow> row" where
  "left_part overlap left l = map (\<lambda>c. (suffixed overlap ''_x'' c, cell l c)) (columns left)"

definition right_part :: "string list \<Rightarrow> string list \<Rightarrow> row \<Rightarrow> row" where
  "right_part overlap right_cols r = map (\<lambda>c. (suffixed overlap ''_y'' c, cell r c)) right_cols"

definition missing_part :: "string list \<Rightarrow> string list \<Rightarrow> row" where
  "missing_part overlap right_cols = map (\<lambda>c. (suffixed overlap ''_y'' c, JNull)) right_cols"

definition joined ::
  "how \<Rightarrow> string \<Rightarrow> string \<Rightarrow> frame \<Rightarrow> frame \<Rightarrow> row \<Rightarrow> row list" where
  \<comment> \<open>the rows of the result that come from the left row \<open>l\<close>\<close>
  "joined h left_on right_on left right l =
     (let right_cols = right_columns left_on right_on right;
          overlap = overlapping left right_cols
      in case matching left_on right_on l (rows right) of
           [] \<Rightarrow> (if h = LeftJoin then [left_part overlap left l @ missing_part overlap right_cols]
                  else [])
         | m # ms \<Rightarrow> map (\<lambda>r. left_part overlap left l @ right_part overlap right_cols r) (m # ms))"

definition merged_columns :: "string \<Rightarrow> string \<Rightarrow> frame \<Rightarrow> frame \<Rightarrow> string list" where
  "merged_columns left_on right_on left right =
     (let right_cols = right_columns left_on right_on right;
          overlap = overlapping left right_cols
      in map (suffixed overlap ''_x'') (columns left) @ map (suffixed overlap ''_y'') right_cols)"

definition merge :: "how \<Rightarrow> string \<Rightarrow> string \<Rightarrow> frame \<Rightarrow> frame \<Rightarrow> error + frame" where
  "merge h left_on right_on left right =
     (if left_on \<notin> set (columns left) then Inl (KeyError left_on)
      else if right_on \<notin> set (columns right) then Inl (KeyError right_on)
      else if \<not> distinct (merged_columns left_on right_on left right) then Inl MergeError
      else Inr \<lparr>columns = merged_columns left_on right_on left right,
                rows = concat (map (joined h left_on right_on left right) (rows left))\<rparr>)"

definition rename :: "(string \<times> string) list \<Rightarrow> frame \<Rightarrow> error + frame" where
  \<comment> \<open>\<^verbatim>\<open>df.rename(columns=..., inplace=True)\<close>; pandas tolerates the duplicate labels a
      renaming can produce, the model stops there\<close>
  "rename mapping df =
     (let new = (\<lambda>c. case map_of mapping c of None \<Rightarrow> c | Some c' \<Rightarrow> c')
      in if \<not> distinct (map new (columns df)) then Inl DuplicateColumns
         else Inr \<lparr>columns = map new (columns df),
                   rows = map (\<lambda>r. map (\<lambda>c. (new c, cell r c)) (columns df)) (rows df)\<rparr>)"

definition drop_column :: "frame \<Rightarrow> string \<Rightarrow> error + frame" where
  \<comment> \<open>\<^verbatim>\<open>df.drop(columns=c, inplace=True)\<close>\<close>
  "drop_column df c =
     (if c \<notin> set (columns df) then Inl (KeyError c)
      else Inr \<lparr>columns = filter (\<lambda>k. k \<noteq> c) (columns df),
                rows = map (\<lambda>r. map (\<lambda>k. (k, cell r k)) (filter (\<lambda>k. k \<noteq> c) (columns df)))
                         (rows df)\<rparr>)"

fun traverse :: "('a \<Rightarrow> error + 'b) \<Rightarrow> 'a list \<Rightarrow> error + 'b list" where
  "traverse f [] = Inr []"
| "traverse f (x # xs) =
     (case f x of
        Inl e \<Rightarrow> Inl e
      | Inr y \<Rightarrow> (case traverse f xs of Inl e \<Rightarrow> Inl e | Inr ys \<Rightarrow> Inr (y # ys)))"

definition update_column :: "string \<Rightarrow> (json \<Rightarrow> error + json) \<Rightarrow> frame \<Rightarrow> error + frame" where
  \<comment> \<open>\<^verbatim>\<open>df[c] = f(df[c])\<close> for an operation that works value by value\<close>
  "update_column c f df =
     (if c \<notin> set (columns df) then Inl (KeyError c)
      else case traverse (\<lambda>r. f (cell r c)) (rows df) of
             Inl e \<Rightarrow> Inl e
           | Inr vs \<Rightarrow>
               Inr \<lparr>columns = columns df,
                    rows = map (\<lambda>(r, v). map (\<lambda>k. (k, if k = c then v else cell r k)) (columns df))
                             (zip (rows df) vs)\<rparr>)"

subsection \<open>The conversion of the \<^verbatim>\<open>made\<close> column\<close>

definition fillna0 :: "json \<Rightarrow> json" where
  \<comment> \<open>\<^verbatim>\<open>.fillna(0)\<close>\<close>
  "fillna0 v = (if v = JNull then JInt 0 else v)"

definition replace_made :: "json \<Rightarrow> json" where
  \<comment> \<open>\<^verbatim>\<open>.replace({'Field Goal Made': 1, 0: 0})\<close>\<close>
  "replace_made v =
     (if v = JStr ''Field Goal Made'' then JInt 1 else if v = JInt 0 then JInt 0 else v)"

text \<open>
  \<^verbatim>\<open>int(s)\<close> on a string, for ASCII input: surrounding white space is dropped, one sign is
  allowed, and the rest is decimal digits, where single underscores may separate digits.
\<close>

definition is_space :: "char \<Rightarrow> bool" where
  "is_space c = ((of_char c :: nat) \<in> {9, 10, 11, 12, 13, 32})"

definition strip :: "string \<Rightarrow> string" where
  "strip s = rev (dropWhile is_space (rev (dropWhile is_space s)))"

definition digit :: "char \<Rightarrow> nat option" where
  "digit c = (let n = (of_char c :: nat) in if 48 \<le> n \<and> n \<le> 57 then Some (n - 48) else None)"

fun digits :: "nat \<Rightarrow> string \<Rightarrow> nat option" where
  "digits acc [] = Some acc"
| "digits acc (c # cs) =
     (if c = CHR ''_'' then
        (case cs of
           [] \<Rightarrow> None
         | d # ds \<Rightarrow> (case digit d of None \<Rightarrow> None | Some v \<Rightarrow> digits (10 * acc + v) ds))
      else case digit c of None \<Rightarrow> None | Some v \<Rightarrow> digits (10 * acc + v) cs)"

definition unsigned :: "string \<Rightarrow> nat option" where
  "unsigned s =
     (case s of
        [] \<Rightarrow> None
      | c # cs \<Rightarrow> (case digit c of None \<Rightarrow> None | Some v \<Rightarrow> digits v cs))"

definition py_int :: "string \<Rightarrow> int option" where
  "py_int s =
     (case strip s of
        [] \<Rightarrow> None
      | c # cs \<Rightarrow>
          if c = CHR ''-'' then map_option (\<lambda>n. - int n) (unsigned cs)
          else if c = CHR ''+'' then map_option int (unsigned cs)
          else map_option int (unsigned (c # cs)))"

definition int64 :: "int \<Rightarrow> error + json" where
  "int64 n = (if - (2 ^ 63) \<le> n \<and> n < 2 ^ 63 then Inr (JInt n) else Inl OverflowError)"

fun astype_int :: "json \<Rightarrow> error + json" where
  \<comment> \<open>\<^verbatim>\<open>.astype(int)\<close> on one value of a column of Python objects\<close>
  "astype_int (JInt n) = int64 n"
| "astype_int (JBool b) = Inr (JInt (if b then 1 else 0))"
| "astype_int (JStr s) =
     (case py_int s of
        None \<Rightarrow> Inl (ValueError (''invalid literal for int() with base 10: '' @ s))
      | Some n \<Rightarrow> int64 n)"
| "astype_int JNull = Inl (ValueError ''cannot convert float NaN to integer'')"
| "astype_int _ = Inl TypeError"

definition made_value :: "json \<Rightarrow> error + json" where
  \<comment> \<open>the three conversions, on one value of the \<^verbatim>\<open>made\<close> column\<close>
  "made_value v = astype_int (replace_made (fillna0 v))"

subsection \<open>The routine\<close>

definition stats_params :: "int \<Rightarrow> int \<Rightarrow> StatTypes \<Rightarrow> (string \<times> json) list" where
  "stats_params year week stat =
     [(''year'', JInt year), (''week'', JInt week), (''statTypeId'', JInt (stat_value stat)),
      (''classification'', JStr ''fbs''), (''seasonType'', JStr ''regular'')]"

definition weather_params :: "int \<Rightarrow> int \<Rightarrow> (string \<times> json) list" where
  "weather_params year week =
     [(''year'', JInt year), (''week'', JInt week),
      (''classification'', JStr ''fbs''), (''seasonType'', JStr ''regular'')]"

definition weather_columns_to_keep :: "string list" where
  "weather_columns_to_keep =
     [''id'', ''gameIndoors'', ''homeTeam'', ''awayTeam'', ''temperature'', ''dewPoint'',
      ''humidity'', ''precipitation'', ''snowfall'', ''windDirection'', ''windSpeed'',
      ''pressure'', ''weatherConditionCode'', ''weatherCondition'']"

definition get_table :: "client \<Rightarrow> transport \<Rightarrow> string \<Rightarrow> (string \<times> json) list \<Rightarrow> error + frame" where
  \<comment> \<open>\<^verbatim>\<open>client.get(subpath, params=params, as_df=True)\<close>, no headers passed\<close>
  "get_table c http subpath params =
     (case snd (snd (get c http (\<lambda>a. Map.empty) subpath None (Some params) True)) of
        Inl e \<Rightarrow> Inl e
      | Inr (Table df) \<Rightarrow> Inr df
      | Inr (Raw j) \<Rightarrow> Inl TypeError)"

definition merge_field_goals :: "frame \<Rightarrow> frame \<Rightarrow> error + frame" where
  \<comment> \<open>\<^verbatim>\<open>field_goals\<close> after the left join and the renaming\<close>
  "merge_field_goals attempts makes =
     and_then (select_columns makes [''playId'', ''statType'']) (\<lambda>right.
     and_then (merge LeftJoin ''playId'' ''playId'' attempts right)
       (rename [(''statType_x'', ''statType''), (''statType_y'', ''made'')]))"

definition made_indicator :: "frame \<Rightarrow> error + frame" where
  \<comment> \<open>\<^verbatim>\<open>field_goals\<close> after the three assignments to the \<^verbatim>\<open>made\<close> column\<close>
  "made_indicator field_goals =
     and_then (update_column ''made'' (\<lambda>v. Inr (fillna0 v)) field_goals) (\<lambda>df1.
     and_then (update_column ''made'' (\<lambda>v. Inr (replace_made v)) df1)
       (update_column ''made'' astype_int))"

definition merge_weather :: "frame \<Rightarrow> frame \<Rightarrow> error + frame" where
  \<comment> \<open>\<^verbatim>\<open>merged\<close> after the inner join with the weather and the drop of \<^verbatim>\<open>id\<close>\<close>
  "merge_weather field_goals weather =
     and_then (select_columns weather weather_columns_to_keep) (\<lambda>right.
     and_then (merge InnerJoin ''gameId'' ''id'' field_goals right) (\<lambda>merged.
       drop_column merged ''id''))"

text \<open>
  \<^verbatim>\<open>get_field_goal_data\<close>: the result is the exception raised, or the path of the file
  written by \<^verbatim>\<open>to_csv\<close> together with the table written to it.
\<close>

definition get_field_goal_data ::
  "client \<Rightarrow> transport \<Rightarrow> filesystem \<Rightarrow> int \<Rightarrow> int \<Rightarrow> path \<Rightarrow> bool \<Rightarrow> error + (path \<times> frame)"
where
  "get_field_goal_data c http fs year week export_folder_path retrieve_weather_data =
     (if \<not> is_dir fs export_folder_path
      then Inl (AssertionError ''Error: export_folder_path must be a folder.'')
      else
        let export_name = ''fg_data_yr'' @ str_int year @ ''_wk'' @ str_int week @ ''_wt''
                          @ (if retrieve_weather_data then ''1'' else ''0'') @ ''.csv'';
            export_path = export_folder_path @ [export_name]
        in
        and_then (get_table c http ''plays/stats'' (stats_params year week FIELD_GOAL_MADE)) (\<lambda>makes.
        and_then (get_table c http ''plays/stats'' (stats_params year week FIELD_GOAL_ATTEMPT)) (\<lambda>attempts.
        and_then (merge_field_goals attempts makes) (\<lambda>joined.
        and_then (made_indicator joined) (\<lambda>field_goals.
          if \<not> retrieve_weather_data then Inr (export_path, field_goals)
          else
            and_then (get_table c http ''games/weather'' (weather_params year week)) (\<lambda>weather.
            and_then (merge_weather field_goals weather) (\<lambda>merged.
              Inr (export_path, merged))))))))"

subsection \<open>An API with fixed answers\<close>

text \<open>
  The examples run the routine against a transport that answers every request with status
  200 and a fixed body: the given weather records for the weather query of week 5 of 2022,
  the given made events for the query of the made statistic of that week, and the given
  attempt events for any other request.
\<close>

definition canned :: "json \<Rightarrow> json \<Rightarrow> json \<Rightarrow> transport" where
  "canned makes attempts weather req =
     Inr \<lparr>status_code = 200, text_body = '''',
          json_body = Some (if query req = Some (weather_params 2022 5) then weather
                            else if query req = Some (stats_params 2022 5 FIELD_GOAL_MADE) then makes
                            else attempts)\<rparr>"

definition made_event :: "string \<Rightarrow> json \<Rightarrow> json" where
  "made_event play label = JObj [(''playId'', JStr play), (''statType'', label)]"

definition two_attempts :: json where
  \<comment> \<open>attempt \<open>p1\<close> in game 1 and attempt \<open>p2\<close> in game 2\<close>
  "two_attempts =
     JList [JObj [(''gameId'', JInt 1), (''playId'', JStr ''p1''), (''statType'', JStr ''Field Goal Attempt'')],
            JObj [(''gameId'', JInt 2), (''playId'', JStr ''p2''), (''statType'', JStr ''Field Goal Attempt'')]]"

definition weather_of :: "int \<Rightarrow> json" where
  \<comment> \<open>a weather record with every field the routine keeps, all of them \<open>g\<close>\<close>
  "weather_of g = JObj (map (\<lambda>c. (c, JInt g)) weather_columns_to_keep)"
section \<open>Properties of the API client\<close>

lemma set_add_keys: "set (add_keys cols ks) = set cols \<union> set ks"
  by (induction ks arbitrary: cols) auto

lemma distinct_add_keys: "distinct cols \<Longrightarrow> distinct (add_keys cols ks)"
  by (induction ks arbitrary: cols) auto

lemma set_foldl_add_keys: "set (foldl add_keys cols kss) = set cols \<union> (\<Union>ks \<in> set kss. set ks)"
  by (induction kss arbitrary: cols) (auto simp: set_add_keys)

lemma distinct_foldl_add_keys: "distinct cols \<Longrightarrow> distinct (foldl add_keys cols kss)"
  by (induction kss arbitrary: cols) (auto simp: distinct_add_keys)

lemma set_field_names: "set (field_names records) = (\<Union>r \<in> set records. fst ` set r)"
  by (simp add: field_names_def set_foldl_add_keys)

lemma distinct_field_names: "distinct (field_names records)"
  by (simp add: field_names_def distinct_foldl_add_keys)

lemma as_records_map_JObj: "as_records (map JObj records) = Some records"
  by (induction records) auto

lemma map_of_cells: "map_of (map (\<lambda>c. (c, f c)) cols) c = (if c \<in> set cols then Some (f c) else None)"
  by (induction cols) auto

lemma cell_from_records:
  assumes "r \<in> set records"
  shows "cell (map (\<lambda>c. (c, cell r c)) (field_names records)) c = cell r c"
proof (cases "c \<in> set (field_names records)")
  case True
  then show ?thesis by (simp add: cell_def map_of_cells)
next
  case False
  with assms have "c \<notin> fst ` set r" by (auto simp: set_field_names)
  then have "map_of r c = None" by (simp add: map_of_eq_None_iff)
  with False show ?thesis by (simp add: cell_def map_of_cells)
qed

text \<open>
  Claim C8, as amended. A mapping with exactly one key whose value is a sequence, whatever
  the elements of that sequence are, is unwrapped to the sequence; every other mapping is
  wrapped as a one-record sequence; a sequence is used as it is. The table is built from
  the result, and a sequence of records gives one row per record, with the field names
  of the records as columns and a missing value where a record lacks a field.
\<close>

theorem response_as_df_shapes:
  "tabular_data (JObj [(k, JList vs)]) = JList vs
   \<and> ((\<forall>k vs. items \<noteq> [(k, JList vs)]) \<longrightarrow> tabular_data (JObj items) = JList [JObj items])
   \<and> tabular_data (JList vs) = JList vs
   \<and> response_as_df response = DataFrame (tabular_data response)
   \<and> DataFrame (JList (map JObj records)) = Inr (from_records records)
   \<and> length (rows (from_records records)) = length records
   \<and> set (columns (from_records records)) = (\<Union>r \<in> set records. fst ` set r)
   \<and> distinct (columns (from_records records))
   \<and> (\<forall>i < length records.
         map fst (rows (from_records records) ! i) = columns (from_records records)
         \<and> (\<forall>c. cell (rows (from_records records) ! i) c = cell (records ! i) c))"
proof -
  have wrap: "tabular_data (JObj items) = JList [JObj items]" if "\<forall>k vs. items \<noteq> [(k, JList vs)]"
  proof (cases items)
    case Nil
    then show ?thesis by (simp add: tabular_data_def)
  next
    case (Cons kv rest)
    obtain k v where kv: "kv = (k, v)" by (cases kv)
    show ?thesis
    proof (cases rest)
      case Nil
      with that Cons kv have "\<not> isinstance_list v" by (cases v) auto
      then show ?thesis using Cons Nil kv by (simp add: tabular_data_def)
    next
      case (Cons kv' rest')
      then show ?thesis using \<open>items = kv # rest\<close> by (simp add: tabular_data_def)
    qed
  qed
  have rows_ok: "map fst (rows (from_records records) ! i) = columns (from_records records)
         \<and> (\<forall>c. cell (rows (from_records records) ! i) c = cell (records ! i) c)"
    if "i < length records" for i
    using that cell_from_records [of "records ! i" records]
    by (simp add: from_records_def comp_def)
  show ?thesis
    using wrap rows_ok
    by (simp add: tabular_data_def response_as_df_def as_records_map_JObj
          set_field_names distinct_field_names from_records_def)
qed

theorem response_as_df_shapes_witness:
  "tabular_data (JObj [(''season'', JInt 2022), (''week'', JInt 5)])
     = JList [JObj [(''season'', JInt 2022), (''week'', JInt 5)]]
   \<and> map fst (rows (from_records [[(''playId'', JStr ''p1'')], [(''gameId'', JInt 7)]]) ! 1)
     = [''playId'', ''gameId'']
   \<and> cell (rows (from_records [[(''playId'', JStr ''p1'')], [(''gameId'', JInt 7)]]) ! 1) ''playId'' = JNull"
proof -
  let ?items = "[(''season'', JInt 2022), (''week'', JInt 5)]"
  let ?records = "[[(''playId'', JStr ''p1'')], [(''gameId'', JInt 7)]]"
  have a: "\<forall>k vs. ?items \<noteq> [(k, JList vs)]" by simp
  have b: "(1::nat) < length ?records" by simp
  have c: "columns (from_records ?records) = [''playId'', ''gameId'']"
    by (simp add: from_records_def field_names_def)
  have d: "cell (?records ! 1) ''playId'' = JNull" by (simp add: cell_def)
  from response_as_df_shapes [of _ _ ?items _ ?records] a b c d show ?thesis by simp
qed

text \<open>
  The claim as first stated fails: a mapping with a single key whose value is a sequence of
  numbers is not a mapping to a sequence of records, and yet it is unwrapped, not wrapped.
\<close>

theorem response_as_df_counterexample:
  "as_records [JInt 1, JInt 2] = None
   \<and> tabular_data (JObj [(''a'', JList [JInt 1, JInt 2])]) = JList [JInt 1, JInt 2]
   \<and> tabular_data (JObj [(''a'', JList [JInt 1, JInt 2])])
       \<noteq> JList [JObj [(''a'', JList [JInt 1, JInt 2])]]"
  by (simp add: tabular_data_def)

lemma DataFrame_not_api_error: "DataFrame j \<noteq> Inl (RequestException msg r)"
  by (cases j) (auto split: option.splits)

text \<open>
  Claim C9. \<^verbatim>\<open>get\<close> sends exactly one request. When the response it receives has a
  non-success status (\<^verbatim>\<open>not response.ok\<close>), the call raises the API error made of the
  status code, the body and the response itself, and returns no value; when the status
  is a success, whatever the call returns or raises is not an API error.
\<close>

theorem get_non_success_raises:
  assumes "get self http heap subpath headers params as_df = (heap', sent, result)"
  shows "length sent = 1 \<and>
         (\<forall>response. http (hd sent) = Inr response \<longrightarrow>
            (\<not> ok response \<longrightarrow>
               result = Inl (RequestException
                  (str_int (status_code response) @ '': '' @ text_body response) response))
          \<and> (ok response \<longrightarrow> (\<forall>msg r. result \<noteq> Inl (RequestException msg r))))"
proof -
  let ?req = "\<lparr>url = hostname self @ ''/'' @ subpath,
      sent_headers = (case headers of None \<Rightarrow> Map.empty | Some a \<Rightarrow> heap a) ++ client_headers self,
      query = params\<rparr>"
  from assms have sent: "sent = [?req]" by (simp add: get_def Let_def)
  have "result = Inl (RequestException
                  (str_int (status_code response) @ '': '' @ text_body response) response)"
    if "http ?req = Inr response" "\<not> ok response" for response
    using assms that by (simp add: get_def Let_def)
  moreover have "result \<noteq> Inl (RequestException msg r)"
    if "http ?req = Inr response" "ok response" for response msg r
    using assms that DataFrame_not_api_error [of "tabular_data j" msg r for j]
    by (auto simp: get_def Let_def response_as_df_def split: option.splits sum.splits if_splits)
  ultimately show ?thesis using sent by simp
qed

theorem get_non_success_raises_witness:
  "get (CFBDClient ''https://api.example'' ''key'')
       (\<lambda>req. Inr \<lparr>status_code = 404, text_body = ''Not Found'', json_body = None\<rparr>)
       (\<lambda>a. Map.empty) ''plays/stats'' None None True
   = (\<lambda>a. Map.empty,
      [\<lparr>url = ''https://api.example/plays/stats'',
        sent_headers = Map.empty(''Authorization'' \<mapsto> ''Bearer key''), query = None\<rparr>],
      Inl (RequestException ''404: Not Found''
             \<lparr>status_code = 404, text_body = ''Not Found'', json_body = None\<rparr>))"
proof -
  let ?r = "\<lparr>status_code = 404, text_body = ''Not Found'', json_body = None\<rparr>"
  let ?http = "\<lambda>req::request. (Inr ?r :: error + response)"
  obtain h s res where g: "get (CFBDClient ''https://api.example'' ''key'') ?http
       (\<lambda>a. Map.empty) ''plays/stats'' None None True = (h, s, res)"
    by (cases "get (CFBDClient ''https://api.example'' ''key'') ?http
       (\<lambda>a. Map.empty) ''plays/stats'' None None True") auto
  have n: "\<not> ok ?r" by (simp add: ok_def)
  have str: "str_int 404 = ''404''" by code_simp
  from get_non_success_raises [OF g] n have "res = Inl (RequestException
                  (str_int (status_code ?r) @ '': '' @ text_body ?r) ?r)" by simp
  then have res: "res = Inl (RequestException ''404: Not Found'' ?r)" by (simp add: str)
  from g have "h = (\<lambda>a. Map.empty)" and "s = [\<lparr>url = ''https://api.example/plays/stats'',
        sent_headers = Map.empty(''Authorization'' \<mapsto> ''Bearer key''), query = None\<rparr>]"
    by (simp_all add: get_def CFBDClient_def Let_def)
  with g res show ?thesis by simp
qed

text \<open>
  Claim C10. A call with a caller-supplied dictionary updates that dictionary in place with
  the client's headers: afterwards the caller's dictionary (and nothing else in the store)
  has changed, its \<^verbatim>\<open>Authorization\<close> entry is the client's bearer token whatever it held
  before, and it is the very dictionary sent with the request.
\<close>

theorem get_updates_caller_headers:
  "fst (get self http heap subpath (Some a) params as_df) = heap(a := heap a ++ client_headers self)
   \<and> fst (get (CFBDClient host bearer_token) http heap subpath (Some a) params as_df) a ''Authorization''
       = Some (''Bearer '' @ bearer_token)
   \<and> map sent_headers (fst (snd (get self http heap subpath (Some a) params as_df)))
       = [fst (get self http heap subpath (Some a) params as_df) a]"
  by (simp add: get_def Let_def CFBDClient_def)

section \<open>Properties of \<^verbatim>\<open>merge_csvs\<close>\<close>

lemma merge_loop_same_header:
  assumes "\<forall>f \<in> set files. \<exists>r. snd f = h # r"
    and "i = 0 \<or> header = Some h"
  shows "merge_loop i header merged files = Inr (if files = [] then header else Some h,
           merged @ concat (map (\<lambda>f. tl (snd f)) files))"
  using assms
proof (induction files arbitrary: i header merged)
  case Nil
  then show ?case by simp
next
  case (Cons f files)
  obtain name lines where f: "f = (name, lines)" by (cases f)
  from Cons.prems(1) f obtain r where lines: "lines = h # r" by auto
  have rest: "\<forall>f \<in> set files. \<exists>r. snd f = h # r" using Cons.prems(1) by simp
  have step: "merge_loop (Suc i) (Some h) (merged @ r) files =
      Inr (if files = [] then Some h else Some h, (merged @ r) @ concat (map (\<lambda>f. tl (snd f)) files))"
    by (rule Cons.IH [OF rest]) simp
  show ?case
  proof (cases "i = 0")
    case True
    then show ?thesis using step by (simp add: f lines)
  next
    case False
    with Cons.prems(2) have "header = Some h" by simp
    then show ?thesis using step False by (simp add: f lines)
  qed
qed

text \<open>
  Claim C5. When the directory holds at least one \<^verbatim>\<open>*.csv\<close> file and every such file
  starts with the same header \<open>h\<close>, \<^verbatim>\<open>merge_csvs\<close> visits the files in the order of their
  names, and writes \<open>h\<close> once, followed by the data rows (all rows but the header) of the
  files in the order visited.
\<close>

theorem merge_csvs_same_schema:
  assumes "sorted_csv_files entries \<noteq> []"
    and "\<forall>f \<in> set (sorted_csv_files entries). \<exists>r. snd f = h # r"
  shows "merge_csvs data_folder entries out =
           (None, Some (h # concat (map (\<lambda>f. tl (snd f)) (sorted_csv_files entries))))
         \<and> sorted (map fst (sorted_csv_files entries))
         \<and> set (sorted_csv_files entries) = {f \<in> set entries. is_csv_name (fst f)}"
proof -
  have "merge_loop 0 None [] (sorted_csv_files entries) =
      Inr (Some h, concat (map (\<lambda>f. tl (snd f)) (sorted_csv_files entries)))"
    using merge_loop_same_header [OF assms(2), of 0 None "[]"] assms(1) by simp
  then have "merge_csvs data_folder entries out =
           (None, Some (h # concat (map (\<lambda>f. tl (snd f)) (sorted_csv_files entries))))"
    using assms(1) by (simp add: merge_csvs_def)
  moreover have "sorted (map fst (sorted_csv_files entries))"
    by (simp add: sorted_csv_files_def)
  moreover have "set (sorted_csv_files entries) = {f \<in> set entries. is_csv_name (fst f)}"
    by (simp add: sorted_csv_files_def glob_csv_def)
  ultimately show ?thesis by simp
qed


theorem merge_csvs_same_schema_witness:
  "merge_csvs ''data'' [(''wk2.csv'', [[''a'', ''b''], [''3'', ''4'']]), (''notes.txt'', []),
      (''wk1.csv'', [[''a'', ''b''], [''1'', ''2'']])] None =
     (None, Some [[''a'', ''b''], [''1'', ''2''], [''3'', ''4'']])"
proof -
  let ?es = "[(''wk2.csv'', [[''a'', ''b''], [''3'', ''4'']]), (''notes.txt'', []),
      (''wk1.csv'', [[''a'', ''b''], [''1'', ''2'']])]"
  have s: "sorted_csv_files ?es =
   [(''wk1.csv'', [[''a'', ''b''], [''1'', ''2'']]), (''wk2.csv'', [[''a'', ''b''], [''3'', ''4'']])]"
    by code_simp
  have a1: "sorted_csv_files ?es \<noteq> []" by (simp add: s)
  have a2: "\<forall>f \<in> set (sorted_csv_files ?es). \<exists>r. snd f = [''a'', ''b''] # r" by (simp add: s)
  show ?thesis using merge_csvs_same_schema [OF a1 a2, of "''data''" None] by (simp add: s)
qed

lemma same_header_iff:
  assumes "sorted_csv_files es = first # later" and "snd first = h # r"
  shows "(\<forall>f \<in> set later. \<exists>r. snd f = h # r) \<longleftrightarrow> \<not> headerless_file es \<and> \<not> header_differs es"
proof
  assume a: "\<forall>f \<in> set later. \<exists>r. snd f = h # r"
  have "\<not> headerless_file es" using a assms by (auto simp: headerless_file_def)
  moreover have "\<not> header_differs es" using a assms by (auto simp: header_differs_def)
  ultimately show "\<not> headerless_file es \<and> \<not> header_differs es" ..
next
  assume b: "\<not> headerless_file es \<and> \<not> header_differs es"
  show "\<forall>f \<in> set later. \<exists>r. snd f = h # r"
  proof
    fix f assume f: "f \<in> set later"
    from b f assms have ne: "snd f \<noteq> []" by (auto simp: headerless_file_def)
    then obtain h' r' where s: "snd f = h' # r'" by (cases "snd f") auto
    from b f assms s have "h' = h" by (auto simp: header_differs_def)
    with s show "\<exists>r. snd f = h # r" by simp
  qed
qed

lemma merge_loop_offending:
  assumes "\<not> (\<forall>f \<in> set files. \<exists>r. snd f = h # r)"
  shows "\<exists>e. merge_loop (Suc i) (Some h) merged files = Inl e
            \<and> (e = StopIteration \<or> (\<exists>msg. e = ValueError msg))"
  using assms
proof (induction files arbitrary: i merged)
  case Nil
  then show ?case by simp
next
  case (Cons f files)
  obtain name lines where f: "f = (name, lines)" by (cases f)
  show ?case
  proof (cases lines)
    case Nil
    then show ?thesis by (simp add: f)
  next
    case (Cons h' r)
    note lines = this
    show ?thesis
    proof (cases "h' = h")
      case True
      with Cons.prems f lines have "\<not> (\<forall>f \<in> set files. \<exists>r. snd f = h # r)" by simp
      from Cons.IH [OF this, of "Suc i" "merged @ r"] show ?thesis
        by (simp add: f lines True)
    next
      case False
      then show ?thesis by (simp add: f lines)
    qed
  qed
qed

lemma merge_csvs_first:
  assumes "sorted_csv_files es = (name, h # r) # later"
  shows "merge_csvs d es out =
     (case merge_loop (Suc 0) (Some h) r later of
             Inl e \<Rightarrow> (Some e, out)
           | Inr (None, merged_rows) \<Rightarrow> (Some TypeError, out)
           | Inr (Some header, merged_rows) \<Rightarrow> (None, Some (header # merged_rows)))"
  using assms by (simp add: merge_csvs_def)

lemma merge_csvs_raises:
  "(fst (merge_csvs d es out) \<noteq> None \<longleftrightarrow> no_csv_files es \<or> headerless_file es \<or> header_differs es)
   \<and> (fst (merge_csvs d es out) \<noteq> None \<longrightarrow> snd (merge_csvs d es out) = out)
   \<and> (no_csv_files es \<longrightarrow> fst (merge_csvs d es out) = Some (ValueError (''No CSV files found in '' @ d)))
   \<and> (\<forall>e. fst (merge_csvs d es out) = Some e \<longrightarrow> e = StopIteration \<or> (\<exists>msg. e = ValueError msg))"
proof (cases "sorted_csv_files es")
  case Nil
  then show ?thesis by (simp add: merge_csvs_def no_csv_files_def)
next
  case (Cons first later)
  note sorted = this
  obtain name lines where first: "first = (name, lines)" by (cases first)
  have nonempty: "\<not> no_csv_files es" using sorted by (simp add: no_csv_files_def)
  show ?thesis
  proof (cases lines)
    case Nil
    have "headerless_file es" using sorted first Nil by (simp add: headerless_file_def)
    moreover have "merge_csvs d es out = (Some StopIteration, out)"
      using sorted first Nil by (simp add: merge_csvs_def)
    ultimately show ?thesis using nonempty by simp
  next
    case (Cons h r)
    note lines = this
    have sorted': "sorted_csv_files es = (name, h # r) # later" using sorted first lines by simp
    have iff: "(\<forall>f \<in> set later. \<exists>r. snd f = h # r) \<longleftrightarrow> \<not> headerless_file es \<and> \<not> header_differs es"
      using same_header_iff [OF sorted, of h r] first lines by simp
    show ?thesis
    proof (cases "\<forall>f \<in> set later. \<exists>r. snd f = h # r")
      case True
      have "merge_loop (Suc 0) (Some h) r later = Inr (Some h, r @ concat (map (\<lambda>f. tl (snd f)) later))"
        using merge_loop_same_header [OF True, of "Suc 0" "Some h" r] by simp
      then have "merge_csvs d es out = (None, Some (h # r @ concat (map (\<lambda>f. tl (snd f)) later)))"
        by (simp add: merge_csvs_first [OF sorted'])
      then show ?thesis using iff True nonempty by simp
    next
      case False
      from merge_loop_offending [OF False, of 0 r] obtain e where
        e: "merge_loop (Suc 0) (Some h) r later = Inl e" "e = StopIteration \<or> (\<exists>msg. e = ValueError msg)"
        by blast
      have "merge_csvs d es out = (Some e, out)"
        by (simp add: merge_csvs_first [OF sorted'] e(1))
      then show ?thesis using iff False nonempty e(2) by auto
    qed
  qed
qed

lemma merge_loop_first_offending:
  assumes "\<forall>g \<in> set good. \<exists>r. snd g = h # r" and "\<not> (\<exists>r. snd f = h # r)"
  shows "merge_loop (Suc i) (Some h) merged (good @ f # rest)
         = Inl (if snd f = [] then StopIteration else ValueError (''Header mismatch in '' @ fst f))"
  using assms(1)
proof (induction good arbitrary: i merged)
  case Nil
  obtain name lines where f: "f = (name, lines)" by (cases f)
  show ?case using assms(2) by (cases lines) (auto simp: f)
next
  case (Cons g good)
  obtain name lines where g: "g = (name, lines)" by (cases g)
  from Cons.prems obtain r where r: "lines = h # r" by (auto simp: g)
  from Cons.prems have "\<forall>g \<in> set good. \<exists>r. snd g = h # r" by simp
  from Cons.IH [OF this, of "Suc i" "merged @ r"] show ?case by (simp add: g r)
qed

lemma merge_csvs_first_offending:
  assumes "sorted_csv_files es = (name, h # r) # good @ f # rest"
    and "\<forall>g \<in> set good. \<exists>r. snd g = h # r" and "\<not> (\<exists>r. snd f = h # r)"
  shows "merge_csvs d es out
         = (Some (if snd f = [] then StopIteration else ValueError (''Header mismatch in '' @ fst f)), out)"
  by (simp add: merge_csvs_first [OF assms(1)] merge_loop_first_offending [OF assms(2,3)])

lemma first_offending:
  assumes "\<not> (\<forall>f \<in> set later. \<exists>r. snd f = h # r)"
  shows "\<exists>good f rest. later = good @ f # rest \<and> (\<forall>g \<in> set good. \<exists>r. snd g = h # r)
            \<and> \<not> (\<exists>r. snd f = h # r)"
proof -
  from assms have "\<exists>f \<in> set later. \<not> (\<exists>r. snd f = h # r)" by blast
  from split_list_first_prop [OF this] show ?thesis by blast
qed

lemma merge_csvs_empty_first:
  assumes "sorted_csv_files es = first # later" and "snd first = []"
  shows "merge_csvs d es out = (Some StopIteration, out)"
proof -
  obtain name lines where "first = (name, lines)" by (cases first)
  with assms show ?thesis by (simp add: merge_csvs_def)
qed

lemma merge_csvs_headerless_only:
  assumes "headerless_file es" and "\<not> header_differs es"
  shows "fst (merge_csvs d es out) = Some StopIteration"
proof (cases "sorted_csv_files es")
  case Nil
  with assms(1) show ?thesis by (simp add: headerless_file_def)
next
  case (Cons first later)
  note sorted = this
  obtain name lines where first: "first = (name, lines)" by (cases first)
  show ?thesis
  proof (cases lines)
    case Nil
    then show ?thesis using merge_csvs_empty_first [OF sorted, of d out] first by simp
  next
    case (Cons h r)
    have sorted': "sorted_csv_files es = (name, h # r) # later" using sorted first Cons by simp
    have "\<not> (\<forall>f \<in> set later. \<exists>r. snd f = h # r)"
      using same_header_iff [OF sorted, of h r] first Cons assms(1) by simp
    from first_offending [OF this] obtain good f rest where
      d: "later = good @ f # rest" "\<forall>g \<in> set good. \<exists>r. snd g = h # r" "\<not> (\<exists>r. snd f = h # r)"
      by blast
    have "snd f = []"
    proof (rule ccontr)
      assume "snd f \<noteq> []"
      then obtain h' r' where s: "snd f = h' # r'" by (cases "snd f") auto
      with d(3) have "h' \<noteq> h" by simp
      moreover have "f \<in> set later" using d(1) by simp
      ultimately have "header_differs es" using sorted' s by (auto simp: header_differs_def)
      with assms(2) show False ..
    qed
    then show ?thesis using merge_csvs_first_offending [of es name h r good f rest d out] sorted' d
      by simp
  qed
qed

lemma merge_csvs_mismatch_only:
  assumes "header_differs es" and "\<not> headerless_file es"
  shows "\<exists>f \<in> set (tl (sorted_csv_files es)).
           fst (merge_csvs d es out) = Some (ValueError (''Header mismatch in '' @ fst f))
         \<and> snd f \<noteq> [] \<and> hd (snd f) \<noteq> hd (snd (hd (sorted_csv_files es)))"
proof (cases "sorted_csv_files es")
  case Nil
  with assms(1) show ?thesis by (simp add: header_differs_def)
next
  case (Cons first later)
  note sorted = this
  obtain name lines where first: "first = (name, lines)" by (cases first)
  from assms(2) sorted first have "lines \<noteq> []" by (auto simp: headerless_file_def)
  then obtain h r where lines: "lines = h # r" by (cases lines) auto
  have sorted': "sorted_csv_files es = (name, h # r) # later" using sorted first lines by simp
  have "\<not> (\<forall>f \<in> set later. \<exists>r. snd f = h # r)"
    using same_header_iff [OF sorted, of h r] first lines assms(1) by simp
  from first_offending [OF this] obtain good f rest where
    d: "later = good @ f # rest" "\<forall>g \<in> set good. \<exists>r. snd g = h # r" "\<not> (\<exists>r. snd f = h # r)"
    by blast
  have mem: "f \<in> set later" using d(1) by simp
  with assms(2) sorted have ne: "snd f \<noteq> []" by (auto simp: headerless_file_def)
  then obtain h' r' where s: "snd f = h' # r'" by (cases "snd f") auto
  with d(3) have diff: "h' \<noteq> h" by simp
  have "merge_csvs d es out = (Some (ValueError (''Header mismatch in '' @ fst f)), out)"
    using merge_csvs_first_offending [of es name h r good f rest d out] sorted' d ne by simp
  then show ?thesis using mem ne diff s sorted' by auto
qed

lemma merge_csvs_first_failure:
  assumes "sorted_csv_files es = first # good @ f # rest" and "snd first \<noteq> []"
    and "\<forall>g \<in> set good. snd g \<noteq> [] \<and> hd (snd g) = hd (snd first)"
    and "snd f = [] \<or> hd (snd f) \<noteq> hd (snd first)"
  shows "merge_csvs d es out
         = (Some (if snd f = [] then StopIteration else ValueError (''Header mismatch in '' @ fst f)), out)"
proof -
  obtain name lines where first: "first = (name, lines)" by (cases first)
  with assms(2) obtain h r where lines: "lines = h # r" by (cases lines) auto
  have sorted': "sorted_csv_files es = (name, h # r) # good @ f # rest"
    using assms(1) first lines by simp
  have good: "\<forall>g \<in> set good. \<exists>r. snd g = h # r"
  proof
    fix g assume "g \<in> set good"
    with assms(3) first lines have "snd g \<noteq> []" "hd (snd g) = h" by auto
    then show "\<exists>r. snd g = h # r" by (cases "snd g") auto
  qed
  have bad: "\<not> (\<exists>r. snd f = h # r)" using assms(4) first lines by auto
  show ?thesis by (rule merge_csvs_first_offending [OF sorted' good bad])
qed

text \<open>
  Claim C6, as amended. The directory is the one of the model: each entry named
  \<^verbatim>\<open>*.csv\<close> is a file that \<^verbatim>\<open>csv.reader\<close> reads to its end. \<^verbatim>\<open>merge_csvs\<close> raises exactly when
  the directory has no \<^verbatim>\<open>*.csv\<close> file, or some such file has no row at all, or some file
  after the first has a header that differs from the first file's; whenever it raises,
  the file at the export path is left as it was. Each cause has its exception: with no
  matching file the \<^verbatim>\<open>ValueError\<close> "No CSV files found in" the folder; with an empty first
  file \<^verbatim>\<open>StopIteration\<close>; otherwise the first file, in sorted order, that is empty or whose
  header differs decides, \<^verbatim>\<open>StopIteration\<close> when it is empty and the \<^verbatim>\<open>ValueError\<close>
  "Header mismatch in" followed by its name when its header differs. So a directory whose
  only fault is an empty file gives \<^verbatim>\<open>StopIteration\<close>, and one whose only fault is a
  differing header gives "Header mismatch in" a file whose header differs; no other
  exception occurs.
\<close>

theorem merge_csvs_failure_cases:
  "(fst (merge_csvs d es out) \<noteq> None \<longleftrightarrow> no_csv_files es \<or> headerless_file es \<or> header_differs es)
   \<and> (fst (merge_csvs d es out) \<noteq> None \<longrightarrow> snd (merge_csvs d es out) = out)
   \<and> (no_csv_files es \<longrightarrow> fst (merge_csvs d es out) = Some (ValueError (''No CSV files found in '' @ d)))
   \<and> (\<forall>e. fst (merge_csvs d es out) = Some e \<longrightarrow> e = StopIteration \<or> (\<exists>msg. e = ValueError msg))
   \<and> (\<forall>first later. sorted_csv_files es = first # later \<and> snd first = [] \<longrightarrow>
         fst (merge_csvs d es out) = Some StopIteration)
   \<and> (\<forall>first good f rest.
         sorted_csv_files es = first # good @ f # rest \<and> snd first \<noteq> []
         \<and> (\<forall>g \<in> set good. snd g \<noteq> [] \<and> hd (snd g) = hd (snd first))
         \<and> (snd f = [] \<or> hd (snd f) \<noteq> hd (snd first)) \<longrightarrow>
         fst (merge_csvs d es out)
         = Some (if snd f = [] then StopIteration else ValueError (''Header mismatch in '' @ fst f)))
   \<and> (headerless_file es \<and> \<not> header_differs es \<longrightarrow> fst (merge_csvs d es out) = Some StopIteration)
   \<and> (header_differs es \<and> \<not> headerless_file es \<longrightarrow>
         (\<exists>f \<in> set (tl (sorted_csv_files es)).
            fst (merge_csvs d es out) = Some (ValueError (''Header mismatch in '' @ fst f))
          \<and> snd f \<noteq> [] \<and> hd (snd f) \<noteq> hd (snd (hd (sorted_csv_files es)))))"
proof -
  have a: "\<forall>first later. sorted_csv_files es = first # later \<and> snd first = [] \<longrightarrow>
         fst (merge_csvs d es out) = Some StopIteration"
    using merge_csvs_empty_first [of es _ _ d out] by simp
  have b: "\<forall>first good f rest.
         sorted_csv_files es = first # good @ f # rest \<and> snd first \<noteq> []
         \<and> (\<forall>g \<in> set good. snd g \<noteq> [] \<and> hd (snd g) = hd (snd first))
         \<and> (snd f = [] \<or> hd (snd f) \<noteq> hd (snd first)) \<longrightarrow>
         fst (merge_csvs d es out)
         = Some (if snd f = [] then StopIteration else ValueError (''Header mismatch in '' @ fst f))"
  proof (intro allI impI)
    fix first good f rest
    assume h: "sorted_csv_files es = first # good @ f # rest \<and> snd first \<noteq> []
         \<and> (\<forall>g \<in> set good. snd g \<noteq> [] \<and> hd (snd g) = hd (snd first))
         \<and> (snd f = [] \<or> hd (snd f) \<noteq> hd (snd first))"
    then have h1: "sorted_csv_files es = first # good @ f # rest" and h2: "snd first \<noteq> []"
      and h3: "\<forall>g \<in> set good. snd g \<noteq> [] \<and> hd (snd g) = hd (snd first)"
      and h4: "snd f = [] \<or> hd (snd f) \<noteq> hd (snd first)"
      by blast+
    have "merge_csvs d es out
         = (Some (if snd f = [] then StopIteration else ValueError (''Header mismatch in '' @ fst f)), out)"
      by (rule merge_csvs_first_failure [OF h1 h2 h3 h4])
    then show "fst (merge_csvs d es out)
         = Some (if snd f = [] then StopIteration else ValueError (''Header mismatch in '' @ fst f))"
      by simp
  qed
  have c: "headerless_file es \<and> \<not> header_differs es \<longrightarrow> fst (merge_csvs d es out) = Some StopIteration"
    using merge_csvs_headerless_only [of es d out] by blast
  have e: "header_differs es \<and> \<not> headerless_file es \<longrightarrow>
         (\<exists>f \<in> set (tl (sorted_csv_files es)).
            fst (merge_csvs d es out) = Some (ValueError (''Header mismatch in '' @ fst f))
          \<and> snd f \<noteq> [] \<and> hd (snd f) \<noteq> hd (snd (hd (sorted_csv_files es))))"
    using merge_csvs_mismatch_only [of es d out] by blast
  from merge_csvs_raises [of d es out] a b c e show ?thesis by blast
qed

theorem merge_csvs_failure_cases_witness:
  "header_differs [(''wk2.csv'', [[''a'', ''c''], [''3'', ''4'']]), (''wk1.csv'', [[''a'', ''b''], [''1'', ''2'']])]
   \<and> \<not> headerless_file [(''wk2.csv'', [[''a'', ''c''], [''3'', ''4'']]), (''wk1.csv'', [[''a'', ''b''], [''1'', ''2'']])]
   \<and> merge_csvs ''data'' [(''wk2.csv'', [[''a'', ''c''], [''3'', ''4'']]), (''wk1.csv'', [[''a'', ''b''], [''1'', ''2'']])]
       (Some [[''old'']])
     = (Some (ValueError ''Header mismatch in wk2.csv''), Some [[''old'']])
   \<and> headerless_file [(''wk2.csv'', []), (''wk1.csv'', [[''a'', ''b''], [''1'', ''2'']])]
   \<and> \<not> header_differs [(''wk2.csv'', []), (''wk1.csv'', [[''a'', ''b''], [''1'', ''2'']])]
   \<and> merge_csvs ''data'' [(''wk2.csv'', []), (''wk1.csv'', [[''a'', ''b''], [''1'', ''2'']])] (Some [[''old'']])
     = (Some StopIteration, Some [[''old'']])
   \<and> no_csv_files [(''notes.txt'', [[''a'']])]
   \<and> merge_csvs ''data'' [(''notes.txt'', [[''a'']])] None
     = (Some (ValueError ''No CSV files found in data''), None)"
proof -
  let ?m = "[(''wk2.csv'', [[''a'', ''c''], [''3'', ''4'']]), (''wk1.csv'', [[''a'', ''b''], [''1'', ''2'']])]"
  let ?e = "[(''wk2.csv'', []), (''wk1.csv'', [[''a'', ''b''], [''1'', ''2'']])]"
  let ?n = "[(''notes.txt'', [[''a'']])]"
  have sm: "sorted_csv_files ?m
            = [(''wk1.csv'', [[''a'', ''b''], [''1'', ''2'']]), (''wk2.csv'', [[''a'', ''c''], [''3'', ''4'']])]"
    by code_simp
  have se: "sorted_csv_files ?e = [(''wk1.csv'', [[''a'', ''b''], [''1'', ''2'']]), (''wk2.csv'', [])]"
    by code_simp
  have sn: "sorted_csv_files ?n = []" by code_simp
  have m1: "header_differs ?m" by (simp add: header_differs_def sm)
  have m2: "\<not> headerless_file ?m" by (simp add: headerless_file_def sm)
  have e1: "headerless_file ?e" by (simp add: headerless_file_def se)
  have e2: "\<not> header_differs ?e" by (simp add: header_differs_def se)
  have n1: "no_csv_files ?n" by (simp add: no_csv_files_def sn)
  from merge_csvs_failure_cases [of "''data''" ?m "Some [[''old'']]"] m1 m2
  have "fst (merge_csvs ''data'' ?m (Some [[''old'']])) = Some (ValueError ''Header mismatch in wk2.csv'')
        \<and> snd (merge_csvs ''data'' ?m (Some [[''old'']])) = Some [[''old'']]"
    by (simp add: sm)
  then have rm: "merge_csvs ''data'' ?m (Some [[''old'']])
                 = (Some (ValueError ''Header mismatch in wk2.csv''), Some [[''old'']])"
    by (simp add: prod_eq_iff)
  from merge_csvs_failure_cases [of "''data''" ?e "Some [[''old'']]"] e1 e2
  have "fst (merge_csvs ''data'' ?e (Some [[''old'']])) = Some StopIteration
        \<and> snd (merge_csvs ''data'' ?e (Some [[''old'']])) = Some [[''old'']]"
    by simp
  then have re: "merge_csvs ''data'' ?e (Some [[''old'']]) = (Some StopIteration, Some [[''old'']])"
    by (simp add: prod_eq_iff)
  from merge_csvs_failure_cases [of "''data''" ?n None] n1
  have "fst (merge_csvs ''data'' ?n None) = Some (ValueError ''No CSV files found in data'')
        \<and> snd (merge_csvs ''data'' ?n None) = None"
    by simp
  then have rn: "merge_csvs ''data'' ?n None = (Some (ValueError ''No CSV files found in data''), None)"
    by (simp add: prod_eq_iff)
  from m1 m2 rm e1 e2 re n1 rn show ?thesis by blast
qed


text \<open>
  The claim as first stated fails: a directory whose only \<^verbatim>\<open>*.csv\<close> file is empty makes
  \<^verbatim>\<open>merge_csvs\<close> raise, although the directory has a matching file and no header differs.
\<close>

theorem merge_csvs_failure_counterexample:
  "fst (merge_csvs ''data'' [(''wk1.csv'', [])] None) = Some StopIteration
   \<and> \<not> no_csv_files [(''wk1.csv'', [])]
   \<and> \<not> header_differs [(''wk1.csv'', [])]"
  by (simp add: merge_csvs_def no_csv_files_def header_differs_def sorted_csv_files_def
        glob_csv_def is_csv_name_def)

section \<open>Properties of the directory utilities\<close>











text \<open>
  Claim C4 on a directory that holds one empty subdirectory: the recursive call removes
  the subdirectory, the \<^verbatim>\<open>rmdir\<close> that follows it in the loop finds nothing to remove and
  raises, and the directory itself is left in place. A directory that holds only files
  and links is purged, and a missing path is left alone.
\<close>

theorem purge_folder_subdirectory:
  "exists_path [([''data''], Dir), ([''data'', ''old''], Dir)] [''data'']
   \<and> purge_folder (Suc (Suc depth)) [([''data''], Dir), ([''data'', ''old''], Dir)] [''data'']
       = (Some FileNotFoundError, [([''data''], Dir)])
   \<and> purge_folder (Suc (Suc depth))
         [([''data''], Dir), ([''data'', ''wk1.csv''], File), ([''data'', ''latest''], DanglingLink)]
         [''data'']
       = (None, [])
   \<and> purge_folder (Suc depth) [] [''data''] = (None, [])"
  by (simp add: exists_path_def node_def rglob_def children_def is_file_def is_symlink_def is_dir_def
        rmdir_def unlink_def remove_entry_def)

section \<open>Properties of the weekly routine\<close>

lemma cell_columns: "cell (map (\<lambda>c. (c, g c)) cols) k = (if k \<in> set cols then g k else JNull)"
  by (simp add: cell_def map_of_cells)

lemma map_of_renamed:
  "distinct (map f cols) \<Longrightarrow> c \<in> set cols \<Longrightarrow> map_of (map (\<lambda>c. (f c, g c)) cols) (f c) = Some (g c)"
proof (induction cols)
  case Nil
  then show ?case by simp
next
  case (Cons a cols)
  show ?case
  proof (cases "c = a")
    case True
    then show ?thesis by simp
  next
    case False
    with Cons.prems have "c \<in> set cols" by simp
    from Cons.prems have "f a \<notin> f ` set cols" by simp
    with \<open>c \<in> set cols\<close> have "f c \<noteq> f a" by (metis imageI)
    then show ?thesis using Cons.IH Cons.prems \<open>c \<in> set cols\<close> by simp
  qed
qed


lemma cell_renamed:
  "distinct (map f cols) \<Longrightarrow> c \<in> set cols \<Longrightarrow> cell (map (\<lambda>c. (f c, g c)) cols @ rest) (f c) = g c"
  by (simp add: cell_def map_of_renamed)


lemma and_then_Inr: "and_then r f = Inr y \<longleftrightarrow> (\<exists>x. r = Inr x \<and> f x = Inr y)"
  by (cases r) (simp_all add: and_then_def)

lemma traverse_Inr:
  "traverse f xs = Inr ys \<Longrightarrow> length ys = length xs \<and> (\<forall>i < length xs. f (xs ! i) = Inr (ys ! i))"
proof (induction xs arbitrary: ys)
  case Nil
  then show ?case by simp
next
  case (Cons x xs)
  from Cons.prems obtain y ys' where y: "f x = Inr y" "traverse f xs = Inr ys'" "ys = y # ys'"
    by (auto split: sum.splits)
  from Cons.IH [OF y(2)] have ih: "length ys' = length xs" "\<forall>i < length xs. f (xs ! i) = Inr (ys' ! i)"
    by simp_all
  show ?case
  proof (intro conjI allI impI)
    show "length ys = length (x # xs)" using y(3) ih(1) by simp
    fix i assume "i < length (x # xs)"
    then show "f ((x # xs) ! i) = Inr (ys ! i)" using y ih(2) by (cases i) simp_all
  qed
qed

lemma get_field_goal_data_steps:
  assumes "get_field_goal_data c http fs year week folder flag = Inr (p, out)"
  shows "\<exists>makes attempts j fg.
           get_table c http ''plays/stats'' (stats_params year week FIELD_GOAL_MADE) = Inr makes
         \<and> get_table c http ''plays/stats'' (stats_params year week FIELD_GOAL_ATTEMPT) = Inr attempts
         \<and> merge_field_goals attempts makes = Inr j
         \<and> made_indicator j = Inr fg
         \<and> (if flag then \<exists>weather. get_table c http ''games/weather'' (weather_params year week) = Inr weather
                                  \<and> merge_weather fg weather = Inr out
             else out = fg)"
  using assms
  by (auto simp: get_field_goal_data_def Let_def and_then_Inr split: if_splits)

lemma length_joined_left:
  "length (joined LeftJoin lo ro left right l) = max 1 (length (matching lo ro l (rows right)))"
  by (simp add: joined_def Let_def split: list.splits)

lemma length_joined_inner:
  "length (joined InnerJoin lo ro left right l) = length (matching lo ro l (rows right))"
  by (simp add: joined_def Let_def split: list.splits)

lemma joined_replicate:
  assumes "\<forall>r \<in> set (joined h lo ro left right l). g r = v"
  shows "map g (joined h lo ro left right l) = replicate (length (joined h lo ro left right l)) v"
  using assms by (simp add: map_replicate_const [symmetric] cong: map_cong)

lemma select_columns_Inr:
  assumes "select_columns df cols = Inr right"
  shows "columns right = cols"
    and "rows right = map (\<lambda>r. map (\<lambda>c. (c, cell r c)) cols) (rows df)"
    and "set cols \<subseteq> set (columns df)"
proof -
  from assms have none: "filter (\<lambda>c. c \<notin> set (columns df)) cols = []"
    by (auto simp: select_columns_def split: list.splits)
  then show "set cols \<subseteq> set (columns df)" by (auto simp: filter_empty_conv)
  from assms none show "columns right = cols"
    and "rows right = map (\<lambda>r. map (\<lambda>c. (c, cell r c)) cols) (rows df)"
    by (auto simp: select_columns_def)
qed

lemma matching_selected:
  assumes "k \<in> set cols"
  shows "matching lo k l (map (\<lambda>r. map (\<lambda>c. (c, cell r c)) cols) rs)
         = map (\<lambda>r. map (\<lambda>c. (c, cell r c)) cols) (matching lo k l rs)"
  using assms by (simp add: matching_def filter_map comp_def cell_columns)

lemma merge_Inr:
  assumes "merge h lo ro left right = Inr m"
  shows "rows m = concat (map (joined h lo ro left right) (rows left))"
    and "columns m = merged_columns lo ro left right"
    and "distinct (merged_columns lo ro left right)"
    and "lo \<in> set (columns left)" and "ro \<in> set (columns right)"
  using assms by (auto simp: merge_def split: if_splits)

lemma rename_Inr:
  assumes "rename mapping df = Inr out"
  shows "rows out = map (\<lambda>r. map (\<lambda>c. (case map_of mapping c of None \<Rightarrow> c | Some c' \<Rightarrow> c', cell r c)) (columns df)) (rows df)"
    and "columns out = map (\<lambda>c. case map_of mapping c of None \<Rightarrow> c | Some c' \<Rightarrow> c') (columns df)"
    and "distinct (map (\<lambda>c. case map_of mapping c of None \<Rightarrow> c | Some c' \<Rightarrow> c') (columns df))"
  using assms by (auto simp: rename_def Let_def split: if_splits)

lemma update_column_Inr:
  assumes "update_column c f df = Inr out"
  shows "columns out = columns df" and "c \<in> set (columns df)"
    and "length (rows out) = length (rows df)"
    and "\<forall>i < length (rows df). \<forall>k \<in> set (columns df).
           if k = c then f (cell (rows df ! i) c) = Inr (cell (rows out ! i) c)
           else cell (rows out ! i) k = cell (rows df ! i) k"
proof -
  from assms have c: "c \<in> set (columns df)" by (auto simp: update_column_def split: if_splits)
  with assms obtain vs where vs: "traverse (\<lambda>r. f (cell r c)) (rows df) = Inr vs"
    and out: "out = \<lparr>columns = columns df,
                    rows = map (\<lambda>(r, v). map (\<lambda>k. (k, if k = c then v else cell r k)) (columns df))
                             (zip (rows df) vs)\<rparr>"
    by (auto simp: update_column_def split: sum.splits)
  from traverse_Inr [OF vs] have len: "length vs = length (rows df)"
    and each: "\<forall>i < length (rows df). f (cell (rows df ! i) c) = Inr (vs ! i)" by simp_all
  show "columns out = columns df" using out by simp
  show "c \<in> set (columns df)" by (rule c)
  show "length (rows out) = length (rows df)" using out len by simp
  show "\<forall>i < length (rows df). \<forall>k \<in> set (columns df).
           if k = c then f (cell (rows df ! i) c) = Inr (cell (rows out ! i) c)
           else cell (rows out ! i) k = cell (rows df ! i) k"
    using out len each by (simp add: cell_columns)
qed

lemma made_indicator_Inr:
  assumes "made_indicator j = Inr fg"
  shows "columns fg = columns j" and "''made'' \<in> set (columns j)"
    and "length (rows fg) = length (rows j)"
    and "\<forall>i < length (rows j). made_value (cell (rows j ! i) ''made'') = Inr (cell (rows fg ! i) ''made'')"
    and "\<forall>i < length (rows j). \<forall>k \<in> set (columns j). k \<noteq> ''made'' \<longrightarrow>
           cell (rows fg ! i) k = cell (rows j ! i) k"
proof -
  from assms obtain d1 d2 where
    s1: "update_column ''made'' (\<lambda>v. Inr (fillna0 v)) j = Inr d1" and
    s2: "update_column ''made'' (\<lambda>v. Inr (replace_made v)) d1 = Inr d2" and
    s3: "update_column ''made'' astype_int d2 = Inr fg"
    by (auto simp: made_indicator_def and_then_Inr)
  note u1 = update_column_Inr [OF s1] and u2 = update_column_Inr [OF s2]
    and u3 = update_column_Inr [OF s3]
  show "columns fg = columns j" using u1(1) u2(1) u3(1) by simp
  show m: "''made'' \<in> set (columns j)" by (rule u1(2))
  show "length (rows fg) = length (rows j)" using u1(3) u2(3) u3(3) by simp
  show "\<forall>i < length (rows j). made_value (cell (rows j ! i) ''made'') = Inr (cell (rows fg ! i) ''made'')"
  proof (intro allI impI)
    fix i assume i: "i < length (rows j)"
    from u1(4) i m have a: "cell (rows d1 ! i) ''made'' = fillna0 (cell (rows j ! i) ''made'')"
      by fastforce
    from u2(4) i m u1(1) u1(3) have b: "cell (rows d2 ! i) ''made'' = replace_made (cell (rows d1 ! i) ''made'')"
      by fastforce
    from u3(4) i m u1(1) u1(3) u2(1) u2(3)
    have "astype_int (cell (rows d2 ! i) ''made'') = Inr (cell (rows fg ! i) ''made'')"
      by fastforce
    then show "made_value (cell (rows j ! i) ''made'') = Inr (cell (rows fg ! i) ''made'')"
      by (simp add: made_value_def a b)
  qed
  show "\<forall>i < length (rows j). \<forall>k \<in> set (columns j). k \<noteq> ''made'' \<longrightarrow>
           cell (rows fg ! i) k = cell (rows j ! i) k"
  proof (intro allI impI ballI)
    fix i k assume i: "i < length (rows j)" and k: "k \<in> set (columns j)" "k \<noteq> ''made''"
    from u1(4) i k have a: "cell (rows d1 ! i) k = cell (rows j ! i) k" by fastforce
    from u2(4) i k u1(1) u1(3) have b: "cell (rows d2 ! i) k = cell (rows d1 ! i) k" by fastforce
    from u3(4) i k u1(1) u1(3) u2(1) u2(3) have "cell (rows fg ! i) k = cell (rows d2 ! i) k"
      by fastforce
    then show "cell (rows fg ! i) k = cell (rows j ! i) k" by (simp add: a b)
  qed
qed

lemma joined_cases:
  assumes "row \<in> set (joined h lo ro left right l)"
  shows "(matching lo ro l (rows right) = [] \<and> h = LeftJoin
          \<and> row = left_part (overlapping left (right_columns lo ro right)) left l
                  @ missing_part (overlapping left (right_columns lo ro right)) (right_columns lo ro right))
       \<or> (\<exists>r \<in> set (matching lo ro l (rows right)).
            row = left_part (overlapping left (right_columns lo ro right)) left l
                  @ right_part (overlapping left (right_columns lo ro right)) (right_columns lo ro right) r)"
  using assms by (auto simp: joined_def Let_def split: list.splits if_splits)

lemma distinct_merged:
  assumes "distinct (merged_columns lo ro left right)"
  shows "distinct (map (suffixed (overlapping left (right_columns lo ro right)) ''_x'') (columns left))"
    and "distinct (map (suffixed (overlapping left (right_columns lo ro right)) ''_y'') (right_columns lo ro right))"
    and "\<forall>c \<in> set (right_columns lo ro right).
           suffixed (overlapping left (right_columns lo ro right)) ''_y'' c
             \<notin> suffixed (overlapping left (right_columns lo ro right)) ''_x'' ` set (columns left)"
  using assms by (auto simp: merged_columns_def Let_def)

lemma cell_joined_left:
  assumes "distinct (merged_columns lo ro left right)" and "c \<in> set (columns left)"
    and "row \<in> set (joined h lo ro left right l)"
  shows "cell row (suffixed (overlapping left (right_columns lo ro right)) ''_x'' c) = cell l c"
proof -
  let ?ov = "overlapping left (right_columns lo ro right)"
  have "cell (left_part ?ov left l @ rest) (suffixed ?ov ''_x'' c) = cell l c" for rest
    unfolding left_part_def
    by (rule cell_renamed [OF distinct_merged(1) [OF assms(1)] assms(2)])
  with joined_cases [OF assms(3)] show ?thesis by auto
qed


lemma length_filter_distinct:
  "distinct (map f xs) \<Longrightarrow> length (filter (\<lambda>x. f x = v) xs) \<le> 1"
  by (induction xs) (auto simp: filter_empty_conv image_iff)

lemma length_matching_distinct:
  "distinct (map (\<lambda>r. cell r ro) rs) \<Longrightarrow> length (matching lo ro l rs) \<le> 1"
  unfolding matching_def by (rule length_filter_distinct)

lemma sum_list_at_most_one:
  "\<forall>x \<in> set xs. f x \<le> (1::nat) \<Longrightarrow> sum_list (map f xs) \<le> length xs"
  by (induction xs) auto

lemma concat_replicate_one:
  "\<forall>x \<in> set xs. n x = (1::nat) \<Longrightarrow> concat (map (\<lambda>x. replicate (n x) (g x)) xs) = map g xs"
  by (induction xs) auto

lemma length_concat_replicate:
  "length (concat (map (\<lambda>x. replicate (n x) (g x)) xs)) = sum_list (map n xs)"
  by (induction xs) auto

lemma sum_list_at_least_one:
  "\<forall>x \<in> set xs. (1::nat) \<le> f x \<Longrightarrow> length xs \<le> sum_list (map f xs)"
  by (induction xs) auto

lemma drop_column_Inr:
  assumes "drop_column df c = Inr out"
  shows "length (rows out) = length (rows df)"
  using assms by (auto simp: drop_column_def split: if_splits)

lemma merge_field_goals_Inr:
  assumes "merge_field_goals attempts makes = Inr j"
  shows "\<exists>right m. select_columns makes [''playId'', ''statType''] = Inr right
           \<and> merge LeftJoin ''playId'' ''playId'' attempts right = Inr m
           \<and> rename [(''statType_x'', ''statType''), (''statType_y'', ''made'')] m = Inr j"
  using assms by (auto simp: merge_field_goals_def and_then_Inr)

lemma merge_field_goals_playId:
  assumes "merge_field_goals attempts makes = Inr j"
  shows "map (\<lambda>r. cell r ''playId'') (rows j)
         = concat (map (\<lambda>a. replicate (max 1 (length (matching ''playId'' ''playId'' a (rows makes))))
                                      (cell a ''playId'')) (rows attempts))"
    and "''playId'' \<in> set (columns j)"
proof -
  from merge_field_goals_Inr [OF assms] obtain right m where
    sel: "select_columns makes [''playId'', ''statType''] = Inr right" and
    mer: "merge LeftJoin ''playId'' ''playId'' attempts right = Inr m" and
    ren: "rename [(''statType_x'', ''statType''), (''statType_y'', ''made'')] m = Inr j"
    by blast
  note s = select_columns_Inr [OF sel] and m = merge_Inr [OF mer] and r = rename_Inr [OF ren]
  let ?new = "\<lambda>c. case map_of [(''statType_x'', ''statType''), (''statType_y'', ''made'')] c of
                     None \<Rightarrow> c | Some c' \<Rightarrow> c'"
  let ?ov = "overlapping attempts (right_columns ''playId'' ''playId'' right)"
  let ?J = "joined LeftJoin ''playId'' ''playId'' attempts right"
  have rc: "right_columns ''playId'' ''playId'' right = [''statType'']"
    by (simp add: right_columns_def s(1))
  have px: "suffixed ?ov ''_x'' ''playId'' = ''playId''"
    by (simp add: suffixed_def overlapping_def rc)
  have pm: "''playId'' \<in> set (columns m)"
  proof -
    have "suffixed ?ov ''_x'' ''playId'' \<in> set (map (suffixed ?ov ''_x'') (columns attempts))"
      using m(4) by simp
    then show ?thesis by (simp add: m(2) merged_columns_def Let_def px)
  qed
  have np: "?new ''playId'' = ''playId''" by simp
  have "?new ''playId'' \<in> set (map ?new (columns m))" using pm by (simp del: map_of.simps)
  then show "''playId'' \<in> set (columns j)" by (simp add: r(2))
  have left: "cell row ''playId'' = cell a ''playId''" if "row \<in> set (?J a)" for row a
    using cell_joined_left [OF m(3) m(4) that] by (simp add: px)
  have sel_match: "matching ''playId'' ''playId'' a (rows right)
        = map (\<lambda>r. map (\<lambda>c. (c, cell r c)) [''playId'', ''statType''])
            (matching ''playId'' ''playId'' a (rows makes))" for a
    unfolding s(2) by (rule matching_selected) simp
  have len: "length (?J a) = max 1 (length (matching ''playId'' ''playId'' a (rows makes)))" for a
    unfolding length_joined_left sel_match by simp
  have per: "map (\<lambda>r. cell r ''playId'') (?J a)
             = replicate (max 1 (length (matching ''playId'' ''playId'' a (rows makes)))) (cell a ''playId'')"
    for a
    using joined_replicate [of LeftJoin "''playId''" "''playId''" attempts right a
        "\<lambda>r. cell r ''playId''" "cell a ''playId''"] left [of _ a] len [of a]
    by simp
  have mrows: "map (\<lambda>r. cell r ''playId'') (rows m)
         = concat (map (\<lambda>a. replicate (max 1 (length (matching ''playId'' ''playId'' a (rows makes))))
                                      (cell a ''playId'')) (rows attempts))"
    by (simp add: m(1) map_concat comp_def per)
  have keep: "cell (map (\<lambda>c. (?new c, cell row c)) (columns m)) ''playId'' = cell row ''playId''" for row
    using cell_renamed [OF r(3) pm, of "\<lambda>c. cell row c" "[]"] by simp
  have "map (\<lambda>r. cell r ''playId'') (rows j) = map (\<lambda>r. cell r ''playId'') (rows m)"
    by (simp add: r(1) comp_def keep del: map_of.simps)
  with mrows show "map (\<lambda>r. cell r ''playId'') (rows j)
         = concat (map (\<lambda>a. replicate (max 1 (length (matching ''playId'' ''playId'' a (rows makes))))
                                      (cell a ''playId'')) (rows attempts))"
    by simp
qed

lemma made_indicator_keeps:
  assumes "made_indicator j = Inr fg" and "k \<in> set (columns j)" and "k \<noteq> ''made''"
  shows "map (\<lambda>r. cell r k) (rows fg) = map (\<lambda>r. cell r k) (rows j)"
  using made_indicator_Inr(3,5) [OF assms(1)] assms(2,3)
  by (auto simp: list_eq_iff_nth_eq)

lemma merge_weather_length:
  assumes "merge_weather fg weather = Inr out"
  shows "length (rows out)
         = sum_list (map (\<lambda>r. length (matching ''gameId'' ''id'' r (rows weather))) (rows fg))"
proof -
  from assms obtain right m where
    sel: "select_columns weather weather_columns_to_keep = Inr right" and
    mer: "merge InnerJoin ''gameId'' ''id'' fg right = Inr m" and
    dr: "drop_column m ''id'' = Inr out"
    by (auto simp: merge_weather_def and_then_Inr)
  note s = select_columns_Inr [OF sel] and m = merge_Inr [OF mer]
  have idc: "''id'' \<in> set weather_columns_to_keep" by (simp add: weather_columns_to_keep_def)
  have len: "length (joined InnerJoin ''gameId'' ''id'' fg right r)
             = length (matching ''gameId'' ''id'' r (rows weather))" for r
    unfolding length_joined_inner s(2) matching_selected [OF idc] by simp
  have "length (rows m)
        = sum_list (map (\<lambda>r. length (matching ''gameId'' ''id'' r (rows weather))) (rows fg))"
    by (simp add: m(1) length_concat comp_def len)
  with drop_column_Inr [OF dr] show ?thesis by simp
qed




lemma made_value_error:
  "s \<noteq> ''Field Goal Made'' \<Longrightarrow> py_int s = None \<Longrightarrow>
   made_value (JStr s) = Inl (ValueError (''invalid literal for int() with base 10: '' @ s))"
  by (simp add: made_value_def fillna0_def replace_made_def)






text \<open>
  Claim C2, as amended. Whenever the routine writes its output without the weather, the
  left join has dropped no attempt event and has kept the attempts in their order: an
  attempt gives one record when no made event has its play identifier, and as many records
  as there are made events with its play identifier otherwise. So the output has at least
  one record per attempt event, and exactly one per attempt event, in the same order, when
  no two made events share a play identifier.
\<close>

theorem field_goal_rows_per_attempt:
  assumes "get_table c http ''plays/stats'' (stats_params year week FIELD_GOAL_MADE) = Inr makes"
    and "get_table c http ''plays/stats'' (stats_params year week FIELD_GOAL_ATTEMPT) = Inr attempts"
    and "get_field_goal_data c http fs year week folder False = Inr (path, out)"
  shows "map (\<lambda>r. cell r ''playId'') (rows out)
         = concat (map (\<lambda>a. replicate (max 1 (length (matching ''playId'' ''playId'' a (rows makes))))
                                      (cell a ''playId'')) (rows attempts))
       \<and> length (rows out)
         = sum_list (map (\<lambda>a. max 1 (length (matching ''playId'' ''playId'' a (rows makes)))) (rows attempts))
       \<and> length (rows attempts) \<le> length (rows out)
       \<and> (distinct (map (\<lambda>m. cell m ''playId'') (rows makes)) \<longrightarrow>
            length (rows out) = length (rows attempts)
          \<and> map (\<lambda>r. cell r ''playId'') (rows out) = map (\<lambda>a. cell a ''playId'') (rows attempts))"
proof -
  let ?n = "\<lambda>a. max 1 (length (matching ''playId'' ''playId'' a (rows makes)))"
  from get_field_goal_data_steps [OF assms(3)] assms(1,2) obtain j where
    j: "merge_field_goals attempts makes = Inr j" and fg: "made_indicator j = Inr out"
    by auto
  note p = merge_field_goals_playId [OF j]
  have keys: "map (\<lambda>r. cell r ''playId'') (rows out)
         = concat (map (\<lambda>a. replicate (?n a) (cell a ''playId'')) (rows attempts))"
    using made_indicator_keeps [OF fg p(2)] p(1) by simp
  have "length (map (\<lambda>r. cell r ''playId'') (rows out)) = sum_list (map ?n (rows attempts))"
    unfolding keys by (rule length_concat_replicate)
  then have count: "length (rows out) = sum_list (map ?n (rows attempts))" by simp
  have least: "length (rows attempts) \<le> length (rows out)"
    unfolding count by (rule sum_list_at_least_one) simp
  have one: "length (rows out) = length (rows attempts)
          \<and> map (\<lambda>r. cell r ''playId'') (rows out) = map (\<lambda>a. cell a ''playId'') (rows attempts)"
    if d: "distinct (map (\<lambda>m. cell m ''playId'') (rows makes))"
  proof -
    have "?n a = 1" for a
      using length_matching_distinct [OF d, of "''playId''" a] by (simp add: max_def)
    then have "\<forall>a \<in> set (rows attempts). ?n a = 1" by blast
    from concat_replicate_one [OF this, of "\<lambda>a. cell a ''playId''"] keys
    have m: "map (\<lambda>r. cell r ''playId'') (rows out) = map (\<lambda>a. cell a ''playId'') (rows attempts)"
      by simp
    from map_eq_imp_length_eq [OF m] m show ?thesis by simp
  qed
  from keys count least one show ?thesis by blast
qed

theorem field_goal_rows_per_attempt_witness:
  "distinct (map (\<lambda>m. cell m ''playId'') [[(''playId'', JStr ''p1''), (''statType'', JStr ''Field Goal Made'')]])
   \<and> get_field_goal_data (CFBDClient ''api'' ''key'')
          (canned (JList [made_event ''p1'' (JStr ''Field Goal Made'')]) two_attempts (JList [weather_of 1]))
          [([''d''], Dir)] 2022 5 [''d''] False
     = Inr ([''d'', ''fg_data_yr2022_wk5_wt0.csv''],
      \<lparr>columns = [''gameId'', ''playId'', ''statType'', ''made''],
       rows = [[(''gameId'', JInt 1), (''playId'', JStr ''p1''),
               (''statType'', JStr ''Field Goal Attempt''), (''made'', JInt 1)],
               [(''gameId'', JInt 2), (''playId'', JStr ''p2''),
               (''statType'', JStr ''Field Goal Attempt''), (''made'', JInt 0)]]\<rparr>)
   \<and> length [[(''gameId'', JInt 1), (''playId'', JStr ''p1''), (''statType'', JStr ''Field Goal Attempt''), (''made'', JInt 1)],
              [(''gameId'', JInt 2), (''playId'', JStr ''p2''), (''statType'', JStr ''Field Goal Attempt''), (''made'', JInt 0)]]
     = length [[(''gameId'', JInt 1), (''playId'', JStr ''p1''), (''statType'', JStr ''Field Goal Attempt'')],
               [(''gameId'', JInt 2), (''playId'', JStr ''p2''), (''statType'', JStr ''Field Goal Attempt'')]]"
proof -
  have h1: "get_table (CFBDClient ''api'' ''key'')
       (canned (JList [made_event ''p1'' (JStr ''Field Goal Made'')]) two_attempts (JList [weather_of 1]))
       ''plays/stats'' (stats_params 2022 5 FIELD_GOAL_MADE)
     = Inr \<lparr>columns = [''playId'', ''statType''],
        rows = [[(''playId'', JStr ''p1''), (''statType'', JStr ''Field Goal Made'')]]\<rparr>"
    by code_simp
  have h2: "get_table (CFBDClient ''api'' ''key'')
       (canned (JList [made_event ''p1'' (JStr ''Field Goal Made'')]) two_attempts (JList [weather_of 1]))
       ''plays/stats'' (stats_params 2022 5 FIELD_GOAL_ATTEMPT)
     = Inr \<lparr>columns = [''gameId'', ''playId'', ''statType''],
        rows = [[(''gameId'', JInt 1), (''playId'', JStr ''p1''), (''statType'', JStr ''Field Goal Attempt'')],
                [(''gameId'', JInt 2), (''playId'', JStr ''p2''), (''statType'', JStr ''Field Goal Attempt'')]]\<rparr>"
    by code_simp
  have h3: "get_field_goal_data (CFBDClient ''api'' ''key'')
       (canned (JList [made_event ''p1'' (JStr ''Field Goal Made'')]) two_attempts (JList [weather_of 1]))
       [([''d''], Dir)] 2022 5 [''d''] False
     = Inr ([''d'', ''fg_data_yr2022_wk5_wt0.csv''],
      \<lparr>columns = [''gameId'', ''playId'', ''statType'', ''made''],
       rows = [[(''gameId'', JInt 1), (''playId'', JStr ''p1''),
               (''statType'', JStr ''Field Goal Attempt''), (''made'', JInt 1)],
               [(''gameId'', JInt 2), (''playId'', JStr ''p2''),
               (''statType'', JStr ''Field Goal Attempt''), (''made'', JInt 0)]]\<rparr>)"
    by code_simp
  have d: "distinct (map (\<lambda>m. cell m ''playId'') [[(''playId'', JStr ''p1''), (''statType'', JStr ''Field Goal Made'')]])"
    by simp
  from field_goal_rows_per_attempt [OF h1 h2 h3] d h3 show ?thesis by simp
qed

text \<open>
  The claim as first stated fails when the API returns two made events for one play: the
  attempt \<open>p1\<close> is written twice, and two attempt events give three records.
\<close>

theorem field_goal_rows_counterexample:
  "get_table (CFBDClient ''api'' ''key'')
          (canned (JList [made_event ''p1'' (JStr ''Field Goal Made''), made_event ''p1'' (JStr ''Field Goal Made'')]) two_attempts (JList [weather_of 1]))
          ''plays/stats'' (stats_params 2022 5 FIELD_GOAL_ATTEMPT)
     = Inr \<lparr>columns = [''gameId'', ''playId'', ''statType''],
        rows = [[(''gameId'', JInt 1), (''playId'', JStr ''p1''), (''statType'', JStr ''Field Goal Attempt'')],
                [(''gameId'', JInt 2), (''playId'', JStr ''p2''), (''statType'', JStr ''Field Goal Attempt'')]]\<rparr>
   \<and> get_field_goal_data (CFBDClient ''api'' ''key'')
          (canned (JList [made_event ''p1'' (JStr ''Field Goal Made''), made_event ''p1'' (JStr ''Field Goal Made'')]) two_attempts (JList [weather_of 1]))
          [([''d''], Dir)] 2022 5 [''d''] False
     = Inr ([''d'', ''fg_data_yr2022_wk5_wt0.csv''],
      \<lparr>columns = [''gameId'', ''playId'', ''statType'', ''made''],
       rows = [[(''gameId'', JInt 1), (''playId'', JStr ''p1''),
               (''statType'', JStr ''Field Goal Attempt''), (''made'', JInt 1)],
               [(''gameId'', JInt 1), (''playId'', JStr ''p1''),
               (''statType'', JStr ''Field Goal Attempt''), (''made'', JInt 1)],
               [(''gameId'', JInt 2), (''playId'', JStr ''p2''),
               (''statType'', JStr ''Field Goal Attempt''), (''made'', JInt 0)]]\<rparr>)"
  by code_simp

text \<open>
  Claim C3, as amended. When the routine writes its output both without and with the
  weather, for the same answers of the API, each record of the output without the weather
  appears in the output with the weather once for every weather record whose identifier is
  its game identifier: the number of records with the weather is the sum of these numbers.
  It is at most the number of records without the weather when no two weather records
  share an identifier.
\<close>

theorem weather_join_row_count:
  assumes "get_table c http ''games/weather'' (weather_params year week) = Inr weather"
    and "get_field_goal_data c http fs year week folder False = Inr (path0, out0)"
    and "get_field_goal_data c http fs year week folder True = Inr (path1, out1)"
  shows "length (rows out1)
         = sum_list (map (\<lambda>r. length (matching ''gameId'' ''id'' r (rows weather))) (rows out0))
       \<and> (distinct (map (\<lambda>w. cell w ''id'') (rows weather)) \<longrightarrow> length (rows out1) \<le> length (rows out0))"
proof -
  from get_field_goal_data_steps [OF assms(2)] obtain makes attempts j where
    a: "get_table c http ''plays/stats'' (stats_params year week FIELD_GOAL_MADE) = Inr makes"
       "get_table c http ''plays/stats'' (stats_params year week FIELD_GOAL_ATTEMPT) = Inr attempts"
       "merge_field_goals attempts makes = Inr j" "made_indicator j = Inr out0"
    by auto
  from get_field_goal_data_steps [OF assms(3)] a assms(1)
  have w: "merge_weather out0 weather = Inr out1" by auto
  note count = merge_weather_length [OF w]
  have "length (rows out1) \<le> length (rows out0)"
    if d: "distinct (map (\<lambda>w. cell w ''id'') (rows weather))"
    unfolding count
    by (rule sum_list_at_most_one) (use length_matching_distinct [OF d] in simp)
  with count show ?thesis by blast
qed

theorem weather_join_row_count_witness:
  "distinct (map (\<lambda>w. cell w ''id'') (rows (from_records [map (\<lambda>c. (c, JInt 1)) weather_columns_to_keep])))
   \<and> get_field_goal_data (CFBDClient ''api'' ''key'')
          (canned (JList [made_event ''p1'' (JStr ''Field Goal Made'')]) two_attempts (JList [weather_of 1]))
          [([''d''], Dir)] 2022 5 [''d''] False
     = Inr ([''d'', ''fg_data_yr2022_wk5_wt0.csv''],
      \<lparr>columns = [''gameId'', ''playId'', ''statType'', ''made''],
       rows = [[(''gameId'', JInt 1), (''playId'', JStr ''p1''),
               (''statType'', JStr ''Field Goal Attempt''), (''made'', JInt 1)],
               [(''gameId'', JInt 2), (''playId'', JStr ''p2''),
               (''statType'', JStr ''Field Goal Attempt''), (''made'', JInt 0)]]\<rparr>)
   \<and> get_field_goal_data (CFBDClient ''api'' ''key'')
          (canned (JList [made_event ''p1'' (JStr ''Field Goal Made'')]) two_attempts (JList [weather_of 1]))
          [([''d''], Dir)] 2022 5 [''d''] True
     = Inr ([''d'', ''fg_data_yr2022_wk5_wt1.csv''],
      \<lparr>columns = [''gameId'', ''playId'', ''statType'', ''made'', ''gameIndoors'', ''homeTeam'',
                  ''awayTeam'', ''temperature'', ''dewPoint'', ''humidity'', ''precipitation'',
                  ''snowfall'', ''windDirection'', ''windSpeed'', ''pressure'',
                  ''weatherConditionCode'', ''weatherCondition''],
       rows = [[(''gameId'', JInt 1), (''playId'', JStr ''p1''),
               (''statType'', JStr ''Field Goal Attempt''), (''made'', JInt 1),
               (''gameIndoors'', JInt 1), (''homeTeam'', JInt 1), (''awayTeam'', JInt 1),
               (''temperature'', JInt 1), (''dewPoint'', JInt 1), (''humidity'', JInt 1),
               (''precipitation'', JInt 1), (''snowfall'', JInt 1), (''windDirection'', JInt 1),
               (''windSpeed'', JInt 1), (''pressure'', JInt 1),
               (''weatherConditionCode'', JInt 1), (''weatherCondition'', JInt 1)]]\<rparr>)
   \<and> length [[(''gameId'', JInt 1), (''playId'', JStr ''p1''),
               (''statType'', JStr ''Field Goal Attempt''), (''made'', JInt 1),
               (''gameIndoors'', JInt 1), (''homeTeam'', JInt 1), (''awayTeam'', JInt 1),
               (''temperature'', JInt 1), (''dewPoint'', JInt 1), (''humidity'', JInt 1),
               (''precipitation'', JInt 1), (''snowfall'', JInt 1), (''windDirection'', JInt 1),
               (''windSpeed'', JInt 1), (''pressure'', JInt 1),
               (''weatherConditionCode'', JInt 1), (''weatherCondition'', JInt 1)]]
     \<le> length [[(''gameId'', JInt 1), (''playId'', JStr ''p1''), (''statType'', JStr ''Field Goal Attempt''), (''made'', JInt 1)],
              [(''gameId'', JInt 2), (''playId'', JStr ''p2''), (''statType'', JStr ''Field Goal Attempt''), (''made'', JInt 0)]]"
proof -
  have h1: "get_table (CFBDClient ''api'' ''key'')
       (canned (JList [made_event ''p1'' (JStr ''Field Goal Made'')]) two_attempts (JList [weather_of 1]))
       ''games/weather'' (weather_params 2022 5)
     = Inr (from_records [map (\<lambda>c. (c, JInt 1)) weather_columns_to_keep])"
    by code_simp
  have h2: "get_field_goal_data (CFBDClient ''api'' ''key'')
       (canned (JList [made_event ''p1'' (JStr ''Field Goal Made'')]) two_attempts (JList [weather_of 1]))
       [([''d''], Dir)] 2022 5 [''d''] False
     = Inr ([''d'', ''fg_data_yr2022_wk5_wt0.csv''],
      \<lparr>columns = [''gameId'', ''playId'', ''statType'', ''made''],
       rows = [[(''gameId'', JInt 1), (''playId'', JStr ''p1''),
               (''statType'', JStr ''Field Goal Attempt''), (''made'', JInt 1)],
               [(''gameId'', JInt 2), (''playId'', JStr ''p2''),
               (''statType'', JStr ''Field Goal Attempt''), (''made'', JInt 0)]]\<rparr>)"
    by code_simp
  have h3: "get_field_goal_data (CFBDClient ''api'' ''key'')
       (canned (JList [made_event ''p1'' (JStr ''Field Goal Made'')]) two_attempts (JList [weather_of 1]))
       [([''d''], Dir)] 2022 5 [''d''] True
     = Inr ([''d'', ''fg_data_yr2022_wk5_wt1.csv''],
      \<lparr>columns = [''gameId'', ''playId'', ''statType'', ''made'', ''gameIndoors'', ''homeTeam'',
                  ''awayTeam'', ''temperature'', ''dewPoint'', ''humidity'', ''precipitation'',
                  ''snowfall'', ''windDirection'', ''windSpeed'', ''pressure'',
                  ''weatherConditionCode'', ''weatherCondition''],
       rows = [[(''gameId'', JInt 1), (''playId'', JStr ''p1''),
               (''statType'', JStr ''Field Goal Attempt''), (''made'', JInt 1),
               (''gameIndoors'', JInt 1), (''homeTeam'', JInt 1), (''awayTeam'', JInt 1),
               (''temperature'', JInt 1), (''dewPoint'', JInt 1), (''humidity'', JInt 1),
               (''precipitation'', JInt 1), (''snowfall'', JInt 1), (''windDirection'', JInt 1),
               (''windSpeed'', JInt 1), (''pressure'', JInt 1),
               (''weatherConditionCode'', JInt 1), (''weatherCondition'', JInt 1)]]\<rparr>)"
    by code_simp
  have d: "distinct (map (\<lambda>w. cell w ''id'') (rows (from_records [map (\<lambda>c. (c, JInt 1)) weather_columns_to_keep])))"
    by (simp add: from_records_def)
  from weather_join_row_count [OF h1 h2 h3] d h2 h3 show ?thesis by simp
qed

text \<open>
  The claim as first stated fails when the API returns several weather records for one
  game: with three records for game 1 the two records written without the weather become
  three with it.
\<close>

theorem weather_join_counterexample:
  "get_field_goal_data (CFBDClient ''api'' ''key'')
          (canned (JList [made_event ''p1'' (JStr ''Field Goal Made'')]) two_attempts (JList [weather_of 1, weather_of 1, weather_of 1]))
          [([''d''], Dir)] 2022 5 [''d''] False
     = Inr ([''d'', ''fg_data_yr2022_wk5_wt0.csv''],
      \<lparr>columns = [''gameId'', ''playId'', ''statType'', ''made''],
       rows = [[(''gameId'', JInt 1), (''playId'', JStr ''p1''),
               (''statType'', JStr ''Field Goal Attempt''), (''made'', JInt 1)],
               [(''gameId'', JInt 2), (''playId'', JStr ''p2''),
               (''statType'', JStr ''Field Goal Attempt''), (''made'', JInt 0)]]\<rparr>)
   \<and> get_field_goal_data (CFBDClient ''api'' ''key'')
          (canned (JList [made_event ''p1'' (JStr ''Field Goal Made'')]) two_attempts (JList [weather_of 1, weather_of 1, weather_of 1]))
          [([''d''], Dir)] 2022 5 [''d''] True
     = Inr ([''d'', ''fg_data_yr2022_wk5_wt1.csv''],
      \<lparr>columns = [''gameId'', ''playId'', ''statType'', ''made'', ''gameIndoors'', ''homeTeam'',
                  ''awayTeam'', ''temperature'', ''dewPoint'', ''humidity'', ''precipitation'',
                  ''snowfall'', ''windDirection'', ''windSpeed'', ''pressure'',
                  ''weatherConditionCode'', ''weatherCondition''],
       rows = [[(''gameId'', JInt 1), (''playId'', JStr ''p1''),
               (''statType'', JStr ''Field Goal Attempt''), (''made'', JInt 1),
               (''gameIndoors'', JInt 1), (''homeTeam'', JInt 1), (''awayTeam'', JInt 1),
               (''temperature'', JInt 1), (''dewPoint'', JInt 1), (''humidity'', JInt 1),
               (''precipitation'', JInt 1), (''snowfall'', JInt 1), (''windDirection'', JInt 1),
               (''windSpeed'', JInt 1), (''pressure'', JInt 1),
               (''weatherConditionCode'', JInt 1), (''weatherCondition'', JInt 1)],
               [(''gameId'', JInt 1), (''playId'', JStr ''p1''),
               (''statType'', JStr ''Field Goal Attempt''), (''made'', JInt 1),
               (''gameIndoors'', JInt 1), (''homeTeam'', JInt 1), (''awayTeam'', JInt 1),
               (''temperature'', JInt 1), (''dewPoint'', JInt 1), (''humidity'', JInt 1),
               (''precipitation'', JInt 1), (''snowfall'', JInt 1), (''windDirection'', JInt 1),
               (''windSpeed'', JInt 1), (''pressure'', JInt 1),
               (''weatherConditionCode'', JInt 1), (''weatherCondition'', JInt 1)],
               [(''gameId'', JInt 1), (''playId'', JStr ''p1''),
               (''statType'', JStr ''Field Goal Attempt''), (''made'', JInt 1),
               (''gameIndoors'', JInt 1), (''homeTeam'', JInt 1), (''awayTeam'', JInt 1),
               (''temperature'', JInt 1), (''dewPoint'', JInt 1), (''humidity'', JInt 1),
               (''precipitation'', JInt 1), (''snowfall'', JInt 1), (''windDirection'', JInt 1),
               (''windSpeed'', JInt 1), (''pressure'', JInt 1),
               (''weatherConditionCode'', JInt 1), (''weatherCondition'', JInt 1)]]\<rparr>)"
  by code_simp




end
